theory Spec2Isabelle
  imports Main
begin

section \<open>JavaScript values\<close>

text \<open>
  The handlers of \<^verbatim>\<open>server.js\<close> work on JSON: request bodies parsed by
  \<^verbatim>\<open>express.json()\<close> and values the Upstash client parses on \<^verbatim>\<open>redis.get\<close>.
  Numbers are kept abstract (type \<open>'n\<close>); what the runtime does with them is a field of
  the environment below. A string is its UTF-8 byte sequence. An object is the list of
  its own properties in the order the runtime enumerates and serialises them: the keys
  that are array indices in ascending order, then the other keys in insertion order.
  \<open>undefined\<close> is \<open>None\<close>.
\<close>

datatype 'n json =
    JNull
  | JBool bool
  | JNum 'n
  | JStr string
  | JArr "'n json list"
  | JObj "(string \<times> 'n json) list"

type_synonym 'n obj = "(string \<times> 'n json) list"

text \<open>Reading an own property: \<^verbatim>\<open>o.k\<close> for a key that \<open>Object.prototype\<close> does not have.\<close>

definition get_prop :: "(string \<times> 'v) list \<Rightarrow> string \<Rightarrow> 'v option" where
  "get_prop ps k = map_of ps k"

text \<open>
  A key is an array index when it is the decimal numeral, without leading zero, of an
  integer below 4294967295.
\<close>

definition is_digit :: "char \<Rightarrow> bool" where
  "is_digit c = (c \<in> set ''0123456789'')"

definition decimal_value :: "string \<Rightarrow> nat" where
  "decimal_value s = foldl (\<lambda>n c. 10 * n + (of_char c - 48)) 0 s"

definition array_index :: "string \<Rightarrow> nat option" where
  "array_index k =
     (if k = [] then None
      else if \<not> list_all is_digit k then None
      else if hd k = CHR ''0'' \<and> k \<noteq> ''0'' then None
      else if decimal_value k < 4294967295 then Some (decimal_value k)
      else None)"

text \<open>
  \<^verbatim>\<open>o[k] = v\<close> on own properties: an existing key keeps its place; a new array index
  goes among the array indices, by its value; any other new key goes last.
\<close>

primrec replace_prop :: "string \<Rightarrow> 'v \<Rightarrow> (string \<times> 'v) list \<Rightarrow> (string \<times> 'v) list" where
  "replace_prop k v [] = []"
| "replace_prop k v (p # ps) = (if fst p = k then (k, v) # ps else p # replace_prop k v ps)"

primrec insert_index :: "nat \<Rightarrow> string \<Rightarrow> 'v \<Rightarrow> (string \<times> 'v) list \<Rightarrow> (string \<times> 'v) list" where
  "insert_index n k v [] = [(k, v)]"
| "insert_index n k v (p # ps) =
     (case array_index (fst p) of
        None \<Rightarrow> (k, v) # p # ps
      | Some m \<Rightarrow> if m < n then p # insert_index n k v ps else (k, v) # p # ps)"

definition set_prop :: "string \<Rightarrow> 'v \<Rightarrow> (string \<times> 'v) list \<Rightarrow> (string \<times> 'v) list" where
  "set_prop k v ps =
     (case map_of ps k of
        Some old \<Rightarrow> replace_prop k v ps
      | None \<Rightarrow>
          (case array_index k of
             None \<Rightarrow> ps @ [(k, v)]
           | Some n \<Rightarrow> insert_index n k v ps))"

text \<open>\<^verbatim>\<open>delete o[k]\<close>: only an own property is removed.\<close>

definition delete_prop :: "string \<Rightarrow> (string \<times> 'v) list \<Rightarrow> (string \<times> 'v) list" where
  "delete_prop k ps = filter (\<lambda>p. fst p \<noteq> k) ps"

text \<open>\<^verbatim>\<open>{...a, ...b}\<close>: the properties of \<open>b\<close> are written onto a copy of \<open>a\<close>, left to right.\<close>

definition spread :: "(string \<times> 'v) list \<Rightarrow> (string \<times> 'v) list \<Rightarrow> (string \<times> 'v) list" where
  "spread a b = fold (\<lambda>p. set_prop (fst p) (snd p)) b a"

text \<open>
  A plain object inherits from \<open>Object.prototype\<close>. A computed read \<^verbatim>\<open>o[k]\<close> that finds
  no own property \<open>k\<close> continues there, and finds a function (or, for \<^verbatim>\<open>__proto__\<close>,
  the prototype object itself) under each of these names.
\<close>

definition object_prototype_props :: "string list" where
  "object_prototype_props =
     [''constructor'', ''__defineGetter__'', ''__defineSetter__'', ''hasOwnProperty'',
      ''__lookupGetter__'', ''__lookupSetter__'', ''isPrototypeOf'', ''propertyIsEnumerable'',
      ''toString'', ''valueOf'', ''__proto__'', ''toLocaleString'']"

datatype 'v lookup = Undefined | Own 'v | Inherited

definition computed_get :: "(string \<times> 'v) list \<Rightarrow> string \<Rightarrow> 'v lookup" where
  "computed_get ps k =
     (case map_of ps k of
        Some v \<Rightarrow> Own v
      | None \<Rightarrow> if k \<in> set object_prototype_props then Inherited else Undefined)"

text \<open>
  A computed write \<^verbatim>\<open>o[k] = v\<close>: for \<^verbatim>\<open>__proto__\<close> without an own property of that
  name the inherited setter runs, which replaces the prototype and leaves the own
  properties as they are.
\<close>

definition computed_set :: "string \<Rightarrow> 'v \<Rightarrow> (string \<times> 'v) list \<Rightarrow> (string \<times> 'v) list" where
  "computed_set k v ps =
     (if k = ''__proto__'' \<and> map_of ps k = None then ps else set_prop k v ps)"

text \<open>
  What \<^verbatim>\<open>{...x}\<close> copies from the result of a computed read: the own enumerable
  properties. The inherited values have none.
\<close>

fun spread_lookup :: "'n obj lookup \<Rightarrow> 'n obj" where
  "spread_lookup (Own d) = d"
| "spread_lookup Inherited = []"
| "spread_lookup Undefined = []"

section \<open>Runtime and libraries\<close>

datatype error = TypeError | IllegalArguments | MailError

text \<open>
  What a request takes from outside the source file: the string and number primitives
  of the runtime, \<^verbatim>\<open>bcryptjs\<close>, \<^verbatim>\<open>jsonwebtoken\<close>, the clock, \<^verbatim>\<open>Math.random\<close>
  and the mail transport.
  \<^item> \<open>bcrypt_hash s\<close> is \<^verbatim>\<open>bcrypt.hash(s, 10)\<close> with the salt drawn for this request;
  \<^item> \<open>jwt_sign p\<close> is the payload and signature part of
    \<^verbatim>\<open>jwt.sign({email: p}, JWT_SECRET, {expiresIn: '7d'})\<close> at this request's time;
  \<^item> \<open>random_digits\<close> are the base-36 digits of the fraction \<^verbatim>\<open>Math.random()\<close> returns;
  \<^item> \<open>base_url\<close> is what \<^verbatim>\<open>baseUrlFromReq(req)\<close> returns: the configured public URL, or
    the one made of the forwarded protocol and host of the request;
  \<^item> \<open>sendMail_fails\<close> tells whether the transport rejects the mail of this request
    (a mail, once its text is built, goes to the transport only and has no part in the
    response or the store);
  \<^item> \<open>error_message e\<close> is the \<^verbatim>\<open>message\<close> of the error thrown.
\<close>

record 'n env =
  toLowerCase :: "string \<Rightarrow> string"
  number_toString :: "'n \<Rightarrow> string"
  number_falsy :: "'n \<Rightarrow> bool"
  bcrypt_hash :: "string \<Rightarrow> string"
  bcrypt_compare :: "string \<Rightarrow> string \<Rightarrow> bool"
  jwt_sign :: "'n json option \<Rightarrow> string"
  date_now :: 'n
  date_iso :: string
  random_digits :: "nat list"
  base_url :: string
  sendMail_fails :: bool
  error_message :: "error \<Rightarrow> string"

text \<open>\<^verbatim>\<open>!v\<close> is \<open>\<not> truthy v\<close>.\<close>

fun truthy :: "'n env \<Rightarrow> 'n json option \<Rightarrow> bool" where
  "truthy env None = False"
| "truthy env (Some JNull) = False"
| "truthy env (Some (JBool b)) = b"
| "truthy env (Some (JNum n)) = (\<not> number_falsy env n)"
| "truthy env (Some (JStr s)) = (s \<noteq> [])"
| "truthy env (Some (JArr xs)) = True"
| "truthy env (Some (JObj ps)) = True"

text \<open>The strings of the elements joined with commas; the first element that throws ends it.\<close>

fun join_comma :: "(error + string) list \<Rightarrow> error + string" where
  "join_comma [] = Inr []"
| "join_comma [r] = r"
| "join_comma (r # q # rs) =
     (case r of
        Inl e \<Rightarrow> Inl e
      | Inr s \<Rightarrow> (case join_comma (q # rs) of Inl e \<Rightarrow> Inl e | Inr t \<Rightarrow> Inr (s @ '','' @ t)))"

text \<open>
  The conversion to a string that \<^verbatim>\<open>String(v)\<close> and a template literal make. An array
  joins its elements with commas, \<open>null\<close> giving the empty string. A plain object is
  converted by the \<^verbatim>\<open>toString\<close> it finds: the inherited one prints
  \<^verbatim>\<open>[object Object]\<close>; an own property of that name, which JSON cannot make callable,
  hides it, the inherited \<^verbatim>\<open>valueOf\<close> returns the object itself, and the conversion
  throws a \<^verbatim>\<open>TypeError\<close>.
\<close>

fun to_string :: "'n env \<Rightarrow> 'n json \<Rightarrow> error + string" where
  "to_string env JNull = Inr ''null''"
| "to_string env (JBool b) = Inr (if b then ''true'' else ''false'')"
| "to_string env (JNum n) = Inr (number_toString env n)"
| "to_string env (JStr s) = Inr s"
| "to_string env (JArr xs) =
     join_comma (map (\<lambda>x. case x of JNull \<Rightarrow> Inr [] | _ \<Rightarrow> to_string env x) xs)"
| "to_string env (JObj ps) =
     (case map_of ps ''toString'' of None \<Rightarrow> Inr ''[object Object]'' | Some f \<Rightarrow> Inl TypeError)"

definition String :: "'n env \<Rightarrow> 'n json option \<Rightarrow> error + string" where
  "String env v = (case v of None \<Rightarrow> Inr ''undefined'' | Some x \<Rightarrow> to_string env x)"

text \<open>\<^verbatim>\<open>s.slice(b, e)\<close> for \<open>0 \<le> b \<le> e\<close>.\<close>

definition slice :: "nat \<Rightarrow> nat \<Rightarrow> string \<Rightarrow> string" where
  "slice b e s = take (e - b) (drop b s)"

definition digit36 :: "nat \<Rightarrow> char" where
  "digit36 d = ''0123456789abcdefghijklmnopqrstuvwxyz'' ! (d mod 36)"

text \<open>\<^verbatim>\<open>Math.random().toString(36)\<close>: \<^verbatim>\<open>0\<close>, or \<^verbatim>\<open>0.\<close> and the fraction's digits.\<close>

definition random_toString36 :: "'n env \<Rightarrow> string" where
  "random_toString36 env =
     (if random_digits env = [] then ''0'' else ''0.'' @ map digit36 (random_digits env))"

text \<open>
  \<^verbatim>\<open>xs.findIndex(p)\<close> where the callback may throw; \<open>None\<close> is the result \<open>-1\<close>.
  \<^verbatim>\<open>xs.find(p)\<close> is the element at that index.
\<close>

fun js_findIndex :: "('a \<Rightarrow> error + bool) \<Rightarrow> 'a list \<Rightarrow> error + nat option" where
  "js_findIndex p [] = Inr None"
| "js_findIndex p (x # xs) =
     (case p x of
        Inl e \<Rightarrow> Inl e
      | Inr True \<Rightarrow> Inr (Some 0)
      | Inr False \<Rightarrow>
          (case js_findIndex p xs of
             Inl e \<Rightarrow> Inl e
           | Inr None \<Rightarrow> Inr None
           | Inr (Some i) \<Rightarrow> Inr (Some (Suc i))))"

text \<open>\<^verbatim>\<open>xs.filter(p)\<close>: the callback runs on every element, and may throw.\<close>

fun js_filter :: "('a \<Rightarrow> error + bool) \<Rightarrow> 'a list \<Rightarrow> error + 'a list" where
  "js_filter p [] = Inr []"
| "js_filter p (x # xs) =
     (case p x of
        Inl e \<Rightarrow> Inl e
      | Inr b \<Rightarrow>
          (case js_filter p xs of
             Inl e \<Rightarrow> Inl e
           | Inr ys \<Rightarrow> Inr (if b then x # ys else ys)))"

definition js_find :: "('a \<Rightarrow> error + bool) \<Rightarrow> 'a list \<Rightarrow> error + 'a option" where
  "js_find p xs =
     (case js_findIndex p xs of
        Inl e \<Rightarrow> Inl e
      | Inr None \<Rightarrow> Inr None
      | Inr (Some i) \<Rightarrow> Inr (Some (xs ! i)))"

section \<open>The key-value store\<close>

text \<open>
  One key space. The handlers store arrays of objects (\<^verbatim>\<open>users\<close>, \<^verbatim>\<open>data_*\<close>) and one
  object of objects (\<^verbatim>\<open>pending\<close>); a key never set reads as \<open>null\<close>, here \<open>None\<close>.
\<close>

datatype 'n cell = Records "'n obj list" | Mapping "(string \<times> 'n obj) list"

type_synonym 'n store = "string \<Rightarrow> 'n cell option"

definition redis_get :: "'n store \<Rightarrow> string \<Rightarrow> 'n cell option" where
  "redis_get st k = st k"

definition redis_set :: "'n store \<Rightarrow> string \<Rightarrow> 'n cell \<Rightarrow> 'n store" where
  "redis_set st k v = st(k \<mapsto> v)"

text \<open>\<^verbatim>\<open>(await redis.get(k)) || []\<close> and \<^verbatim>\<open>|| {}\<close>: arrays and objects are truthy.\<close>

definition or_empty_list :: "'n cell option \<Rightarrow> 'n cell" where
  "or_empty_list c = (case c of None \<Rightarrow> Records [] | Some x \<Rightarrow> x)"

definition or_empty_object :: "'n cell option \<Rightarrow> 'n cell" where
  "or_empty_object c = (case c of None \<Rightarrow> Mapping [] | Some x \<Rightarrow> x)"

definition readUsers :: "'n store \<Rightarrow> 'n cell" where
  "readUsers st = or_empty_list (redis_get st ''users'')"

definition saveUsers :: "'n store \<Rightarrow> 'n cell \<Rightarrow> 'n store" where
  "saveUsers st data = redis_set st ''users'' data"

definition readPending :: "'n store \<Rightarrow> 'n cell" where
  "readPending st = or_empty_object (redis_get st ''pending'')"

definition savePending :: "'n store \<Rightarrow> 'n cell \<Rightarrow> 'n store" where
  "savePending st data = redis_set st ''pending'' data"

text \<open>The JSON a cell is sent as by \<^verbatim>\<open>res.json\<close>.\<close>

definition cell_json :: "'n cell \<Rightarrow> 'n json" where
  "cell_json c =
     (case c of
        Records rs \<Rightarrow> JArr (map JObj rs)
      | Mapping m \<Rightarrow> JObj (map (\<lambda>p. (fst p, JObj (snd p))) m))"

section \<open>Responses\<close>

datatype 'n payload = Json "'n json" | Text string

text \<open>
  A handler ends with the response it writes, or with an error nothing in the handler
  catches (the \<^verbatim>\<open>async\<close> callback rejects and no response is written by this file).
  \<open>Unmodelled\<close> marks the one place where the store holds a value no handler writes
  there and the outcome is not described.
\<close>

datatype 'n outcome = Reply nat "'n payload" | Uncaught error | Unmodelled

definition message :: "string \<Rightarrow> 'n payload" where
  "message m = Json (JObj [(''message'', JStr m)])"

definition ok_true :: "'n payload" where
  "ok_true = Json (JObj [(''ok'', JBool True)])"

definition msg_missing_info :: string where
  "msg_missing_info = ''Thi'' @ [CHR 0xE1, CHR 0xBA, CHR 0xBF] @ ''u th'' @ [CHR 0xC3, CHR 0xB4] @ ''ng tin.''"

definition msg_email_exists :: string where
  "msg_email_exists = ''Email '' @ [CHR 0xC4, CHR 0x91, CHR 0xC3, CHR 0xA3] @ '' t''
     @ [CHR 0xE1, CHR 0xBB, CHR 0x93] @ ''n t'' @ [CHR 0xE1, CHR 0xBA, CHR 0xA1] @ ''i.''"

definition msg_registered :: string where
  "msg_registered = [CHR 0xC4, CHR 0x90, CHR 0xC4, CHR 0x83] @ ''ng k'' @ [CHR 0xC3, CHR 0xBD]
     @ '' th'' @ [CHR 0xC3, CHR 0xA0] @ ''nh c'' @ [CHR 0xC3, CHR 0xB4] @ ''ng. Vui l''
     @ [CHR 0xC3, CHR 0xB2] @ ''ng ch'' @ [CHR 0xE1, CHR 0xBB, CHR 0x9D] @ '' duy''
     @ [CHR 0xE1, CHR 0xBB, CHR 0x87] @ ''t.''"

definition msg_register_error :: string where
  "msg_register_error = ''L'' @ [CHR 0xE1, CHR 0xBB, CHR 0x97] @ ''i ''
     @ [CHR 0xC4, CHR 0x91, CHR 0xC4, CHR 0x83] @ ''ng k'' @ [CHR 0xC3, CHR 0xBD]"

definition msg_missing_token :: string where
  "msg_missing_token = ''Thi'' @ [CHR 0xE1, CHR 0xBA, CHR 0xBF] @ ''u token.''"

definition msg_invalid_token :: string where
  "msg_invalid_token = ''Token kh'' @ [CHR 0xC3, CHR 0xB4] @ ''ng h''
     @ [CHR 0xE1, CHR 0xBB, CHR 0xA3] @ ''p l'' @ [CHR 0xE1, CHR 0xBB, CHR 0x87] @ ''.''"

definition msg_approved :: string where
  "msg_approved = ''Ph'' @ [CHR 0xC3, CHR 0xAA] @ '' duy'' @ [CHR 0xE1, CHR 0xBB, CHR 0x87]
     @ ''t th'' @ [CHR 0xC3, CHR 0xA0] @ ''nh c'' @ [CHR 0xC3, CHR 0xB4] @ ''ng.''"

definition msg_user_not_found :: string where
  "msg_user_not_found = ''Kh'' @ [CHR 0xC3, CHR 0xB4] @ ''ng t'' @ [CHR 0xC3, CHR 0xAC]
     @ ''m th'' @ [CHR 0xE1, CHR 0xBA, CHR 0xA5] @ ''y ng''
     @ [CHR 0xC6, CHR 0xB0, CHR 0xE1, CHR 0xBB, CHR 0x9D] @ ''i d'' @ [CHR 0xC3, CHR 0xB9] @ ''ng.''"

definition msg_not_approved :: string where
  "msg_not_approved = ''Ch'' @ [CHR 0xC6, CHR 0xB0] @ ''a ''
     @ [CHR 0xC4, CHR 0x91, CHR 0xC6, CHR 0xB0, CHR 0xE1, CHR 0xBB, CHR 0xA3] @ ''c duy''
     @ [CHR 0xE1, CHR 0xBB, CHR 0x87] @ ''t.''"

definition msg_wrong_password :: string where
  "msg_wrong_password = ''Sai m'' @ [CHR 0xE1, CHR 0xBA, CHR 0xAD] @ ''t kh''
     @ [CHR 0xE1, CHR 0xBA, CHR 0xA9] @ ''u.''"

definition msg_tmp_sent :: string where
  "msg_tmp_sent = [CHR 0xC4, CHR 0x90, CHR 0xC3, CHR 0xA3] @ '' g'' @ [CHR 0xE1, CHR 0xBB, CHR 0xAD]
     @ ''i m'' @ [CHR 0xE1, CHR 0xBA, CHR 0xAD] @ ''t kh'' @ [CHR 0xE1, CHR 0xBA, CHR 0xA9]
     @ ''u t'' @ [CHR 0xE1, CHR 0xBA, CHR 0xA1] @ ''m th'' @ [CHR 0xE1, CHR 0xBB, CHR 0x9D] @ ''i.''"

definition msg_invalid_table :: string where
  "msg_invalid_table = ''Table kh'' @ [CHR 0xC3, CHR 0xB4] @ ''ng h''
     @ [CHR 0xE1, CHR 0xBB, CHR 0xA3] @ ''p l'' @ [CHR 0xE1, CHR 0xBB, CHR 0x87]"

definition msg_item_not_found :: string where
  "msg_item_not_found = ''Kh'' @ [CHR 0xC3, CHR 0xB4] @ ''ng t'' @ [CHR 0xC3, CHR 0xAC]
     @ ''m th'' @ [CHR 0xE1, CHR 0xBA, CHR 0xA5] @ ''y m'' @ [CHR 0xE1, CHR 0xBB, CHR 0xA5] @ ''c''"

section \<open>Helpers of the source\<close>

text \<open>\<^verbatim>\<open>safeUser(u)\<close>: \<open>null\<close> for a falsy argument, else \<open>u\<close> without its password.\<close>

definition safeUser :: "'n obj option \<Rightarrow> 'n json" where
  "safeUser u = (case u of None \<Rightarrow> JNull | Some ps \<Rightarrow> JObj (delete_prop ''password'' ps))"

text \<open>
  The callback \<^verbatim>\<open>u => u.email.toLowerCase() === email.toLowerCase()\<close>. Only a string
  has \<^verbatim>\<open>toLowerCase\<close>: the left operand is evaluated first, and either may throw.
\<close>

definition same_email :: "'n env \<Rightarrow> 'n json option \<Rightarrow> 'n obj \<Rightarrow> error + bool" where
  "same_email env email u =
     (case get_prop u ''email'' of
        Some (JStr a) \<Rightarrow>
          (case email of
             Some (JStr b) \<Rightarrow> Inr (toLowerCase env a = toLowerCase env b)
           | _ \<Rightarrow> Inl TypeError)
      | _ \<Rightarrow> Inl TypeError)"

text \<open>
  \<^verbatim>\<open>jwt.sign(...)\<close> returns the compact serialisation: the encoded header
  \<^verbatim>\<open>{"alg":"HS256","typ":"JWT"}\<close>, a dot, and the encoded payload and signature.
\<close>

definition jwt_header :: string where
  "jwt_header = ''eyJhbGciOiJIUzI1NiIsInR5cCI6IkpXVCJ9''"

definition mint_token :: "'n env \<Rightarrow> 'n json option \<Rightarrow> string" where
  "mint_token env email = jwt_header @ ''.'' @ jwt_sign env email"

section \<open>Auth routes\<close>

text \<open>
  A handler takes the store and the request, and returns the store and what it ends
  with. The body of a request is the JSON object \<^verbatim>\<open>express.json()\<close> parsed; its fields
  may hold any JSON value or be absent.
\<close>

text \<open>
  The text of the mail to the admin, from the template
  \<^verbatim>\<open><p>${name} (${email})</p><p>Duy..t: <a href="${approveUrl}">${approveUrl}</a></p>\<close>
  (the word between is given by its bytes). The template converts the name, then the
  email, to strings, and either conversion may throw.
\<close>

definition approveUrl :: "'n env \<Rightarrow> string \<Rightarrow> string" where
  "approveUrl env token = base_url env @ ''/api/auth/approve?token='' @ token"

definition approval_html :: "'n env \<Rightarrow> 'n json \<Rightarrow> 'n json \<Rightarrow> string \<Rightarrow> error + string" where
  "approval_html env name email url =
     (case to_string env name of
        Inl e \<Rightarrow> Inl e
      | Inr n \<Rightarrow>
          (case to_string env email of
             Inl e \<Rightarrow> Inl e
           | Inr m \<Rightarrow>
               Inr (''<p>'' @ n @ '' ('' @ m @ '')</p><p>Duy'' @ [CHR 0xE1, CHR 0xBB, CHR 0x87]
                    @ ''t: <a href='' @ [CHR 0x22] @ url @ [CHR 0x22] @ ''>'' @ url
                    @ ''</a></p>'')))"

text \<open>
  \<^verbatim>\<open>POST /api/auth/register\<close>, the body of the \<^verbatim>\<open>try\<close> block. \<^verbatim>\<open>bcrypt.hash\<close> rejects
  a password that is not a string. The draft is saved before the mail is built and
  sent. An array under \<^verbatim>\<open>pending\<close> takes the token as a property that serialisation
  drops.
\<close>

definition userDraft :: "'n env \<Rightarrow> 'n json \<Rightarrow> 'n json \<Rightarrow> string \<Rightarrow> 'n obj" where
  "userDraft env name email pw =
     [(''name'', name), (''email'', email), (''password'', JStr (bcrypt_hash env pw)),
      (''createdAt'', JStr (date_iso env)), (''approved'', JBool False)]"

definition register_try :: "'n env \<Rightarrow> 'n store \<Rightarrow> 'n obj \<Rightarrow> 'n store \<times> (error + 'n outcome)" where
  "register_try env st body =
     (let name = get_prop body ''name'';
          email = get_prop body ''email'';
          password = get_prop body ''password''
      in if \<not> truthy env name \<or> \<not> truthy env email \<or> \<not> truthy env password
         then (st, Inr (Reply 400 (message msg_missing_info)))
         else
           (case readUsers st of
              Mapping m \<Rightarrow> (st, Inl TypeError)
            | Records users \<Rightarrow>
                (case js_find (same_email env email) users of
                   Inl e \<Rightarrow> (st, Inl e)
                 | Inr (Some existed) \<Rightarrow> (st, Inr (Reply 409 (message msg_email_exists)))
                 | Inr None \<Rightarrow>
                     (case password of
                        Some (JStr pw) \<Rightarrow>
                          (let draft = userDraft env (the name) (the email) pw;
                               token = mint_token env email;
                               pending =
                                 (case readPending st of
                                    Mapping m \<Rightarrow> Mapping (computed_set token draft m)
                                  | Records rs \<Rightarrow> Records rs);
                               st' = savePending st pending
                           in case approval_html env (the name) (the email) (approveUrl env token) of
                                Inl e \<Rightarrow> (st', Inl e)
                              | Inr html \<Rightarrow>
                                  if sendMail_fails env then (st', Inl MailError)
                                  else (st', Inr (Reply 200 (message msg_registered))))
                      | _ \<Rightarrow> (st, Inl IllegalArguments)))))"

text \<open>The \<^verbatim>\<open>catch\<close> block turns every error of the \<^verbatim>\<open>try\<close> block into a 500.\<close>

definition register :: "'n env \<Rightarrow> 'n store \<Rightarrow> 'n obj \<Rightarrow> 'n store \<times> 'n outcome" where
  "register env st body =
     (case register_try env st body of
        (st', Inr r) \<Rightarrow> (st', r)
      | (st', Inl e) \<Rightarrow>
          (st', Reply 500 (Json (JObj [(''message'', JStr msg_register_error),
                                       (''error'', JStr (error_message env e))]))))"

text \<open>
  \<^verbatim>\<open>GET /api/auth/approve\<close>. The token is the query parameter taken as a string,
  \<open>None\<close> when absent. \<^verbatim>\<open>pending[token]\<close> is a computed read on a plain object. No
  handler stores an array under \<^verbatim>\<open>pending\<close>; what a computed read on an array would
  give is not described.
\<close>

definition approve :: "'n store \<Rightarrow> string option \<Rightarrow> 'n store \<times> 'n outcome" where
  "approve st token =
     (case token of
        None \<Rightarrow> (st, Reply 400 (Text msg_missing_token))
      | Some t \<Rightarrow>
          if t = [] then (st, Reply 400 (Text msg_missing_token))
          else
            (case readPending st of
               Records rs \<Rightarrow> (st, Unmodelled)
             | Mapping pending \<Rightarrow>
                 (case computed_get pending t of
                    Undefined \<Rightarrow> (st, Reply 404 (Text msg_invalid_token))
                  | draft \<Rightarrow>
                      (case readUsers st of
                         Mapping m \<Rightarrow> (st, Uncaught TypeError)
                       | Records users \<Rightarrow>
                           (let users' = users @ [set_prop ''approved'' (JBool True) (spread_lookup draft)];
                                st1 = saveUsers st (Records users');
                                st2 = savePending st1 (Mapping (delete_prop t pending))
                            in (st2, Reply 200 (Text msg_approved)))))))"

text \<open>\<^verbatim>\<open>POST /api/auth/login\<close>. \<^verbatim>\<open>bcrypt.compare\<close> rejects an argument that is not a string.\<close>

definition login :: "'n env \<Rightarrow> 'n store \<Rightarrow> 'n obj \<Rightarrow> 'n store \<times> 'n outcome" where
  "login env st body =
     (let email = get_prop body ''email'';
          password = get_prop body ''password''
      in case readUsers st of
           Mapping m \<Rightarrow> (st, Uncaught TypeError)
         | Records users \<Rightarrow>
             (case js_find (same_email env email) users of
                Inl e \<Rightarrow> (st, Uncaught e)
              | Inr None \<Rightarrow> (st, Reply 404 (message msg_user_not_found))
              | Inr (Some user) \<Rightarrow>
                  if \<not> truthy env (get_prop user ''approved'')
                  then (st, Reply 403 (message msg_not_approved))
                  else
                    (case (password, get_prop user ''password'') of
                       (Some (JStr p), Some (JStr h)) \<Rightarrow>
                         if \<not> bcrypt_compare env p h
                         then (st, Reply 401 (message msg_wrong_password))
                         else (st, Reply 200 (Json (JObj
                                 [(''token'', JStr (mint_token env (get_prop user ''email''))),
                                  (''user'', safeUser (Some user))])))
                     | _ \<Rightarrow> (st, Uncaught IllegalArguments))))"

text \<open>
  \<^verbatim>\<open>POST /api/auth/forgot\<close>. The found user is an element of the array, so the
  assignment to its password changes the array that is saved.
\<close>

definition forgot :: "'n env \<Rightarrow> 'n store \<Rightarrow> 'n obj \<Rightarrow> 'n store \<times> 'n outcome" where
  "forgot env st body =
     (let email = get_prop body ''email''
      in case readUsers st of
           Mapping m \<Rightarrow> (st, Uncaught TypeError)
         | Records users \<Rightarrow>
             (case js_findIndex (same_email env email) users of
                Inl e \<Rightarrow> (st, Uncaught e)
              | Inr None \<Rightarrow> (st, Reply 404 (message msg_user_not_found))
              | Inr (Some i) \<Rightarrow>
                  (let tmp = slice 2 8 (random_toString36 env);
                       user = set_prop ''password'' (JStr (bcrypt_hash env tmp)) (users ! i);
                       st' = saveUsers st (Records (users[i := user]))
                   in if sendMail_fails env then (st', Uncaught MailError)
                      else (st', Reply 200 (message msg_tmp_sent)))))"

section \<open>Data routes\<close>

definition allowedTables :: "string list" where
  "allowedTables = [''rooms'', ''guests'', ''bookings'', ''invoices'', ''settings'']"

text \<open>The template \<^verbatim>\<open>`data_${table}`\<close>.\<close>

definition data_key :: "string \<Rightarrow> string" where
  "data_key table = ''data_'' @ table"

text \<open>
  The callback \<^verbatim>\<open>i => String(i.id) === String(id)\<close>; the path parameter \<open>pid\<close> is a
  string. The conversion of the record's id may throw.
\<close>

definition id_matches :: "'n env \<Rightarrow> string \<Rightarrow> 'n obj \<Rightarrow> error + bool" where
  "id_matches env pid i =
     (case String env (get_prop i ''id'') of Inl e \<Rightarrow> Inl e | Inr s \<Rightarrow> Inr (s = pid))"

text \<open>The callback \<^verbatim>\<open>i => String(i.id) !== String(id)\<close> of the delete route.\<close>

definition id_differs :: "'n env \<Rightarrow> string \<Rightarrow> 'n obj \<Rightarrow> error + bool" where
  "id_differs env pid i =
     (case String env (get_prop i ''id'') of Inl e \<Rightarrow> Inl e | Inr s \<Rightarrow> Inr (s \<noteq> pid))"

text \<open>\<^verbatim>\<open>GET /api/data/:table\<close>\<close>

definition data_list :: "'n store \<Rightarrow> string \<Rightarrow> 'n store \<times> 'n outcome" where
  "data_list st table =
     (if table \<notin> set allowedTables then (st, Reply 400 (message msg_invalid_table))
      else (st, Reply 200 (Json (cell_json (or_empty_list (redis_get st (data_key table)))))))"

text \<open>\<^verbatim>\<open>POST /api/data/:table\<close>; \<^verbatim>\<open>push\<close> exists on arrays only.\<close>

definition data_create :: "'n env \<Rightarrow> 'n store \<Rightarrow> string \<Rightarrow> 'n obj \<Rightarrow> 'n store \<times> 'n outcome" where
  "data_create env st table item =
     (if table \<notin> set allowedTables then (st, Reply 400 (message msg_invalid_table))
      else
        (case or_empty_list (redis_get st (data_key table)) of
           Mapping m \<Rightarrow> (st, Uncaught TypeError)
         | Records list \<Rightarrow>
             (redis_set st (data_key table)
                (Records (list @ [set_prop ''id'' (JNum (date_now env)) item])),
              Reply 200 ok_true)))"

text \<open>\<^verbatim>\<open>PUT /api/data/:table/:id\<close>\<close>

definition data_update ::
    "'n env \<Rightarrow> 'n store \<Rightarrow> string \<Rightarrow> string \<Rightarrow> 'n obj \<Rightarrow> 'n store \<times> 'n outcome" where
  "data_update env st table pid body =
     (case or_empty_list (redis_get st (data_key table)) of
        Mapping m \<Rightarrow> (st, Uncaught TypeError)
      | Records list \<Rightarrow>
          (case js_findIndex (id_matches env pid) list of
             Inl e \<Rightarrow> (st, Uncaught e)
           | Inr None \<Rightarrow> (st, Reply 404 (message msg_item_not_found))
           | Inr (Some idx) \<Rightarrow>
               (redis_set st (data_key table) (Records (list[idx := spread (list ! idx) body])),
                Reply 200 ok_true)))"

text \<open>\<^verbatim>\<open>DELETE /api/data/:table/:id\<close>; nothing is written when the filter throws.\<close>

definition data_delete :: "'n env \<Rightarrow> 'n store \<Rightarrow> string \<Rightarrow> string \<Rightarrow> 'n store \<times> 'n outcome" where
  "data_delete env st table pid =
     (case or_empty_list (redis_get st (data_key table)) of
        Mapping m \<Rightarrow> (st, Uncaught TypeError)
      | Records list \<Rightarrow>
          (case js_filter (id_differs env pid) list of
             Inl e \<Rightarrow> (st, Uncaught e)
           | Inr newList \<Rightarrow>
               (redis_set st (data_key table) (Records newList), Reply 200 ok_true)))"


section \<open>Routing of the data interface\<close>

text \<open>
  The four routes under \<^verbatim>\<open>/api/data\<close>, as Express dispatches them on method and path:
  \<^verbatim>\<open>GET :table\<close>, \<^verbatim>\<open>POST :table\<close>, \<^verbatim>\<open>PUT :table/:id\<close>, \<^verbatim>\<open>DELETE :table/:id\<close>.
\<close>

datatype 'n data_request =
    ListReq string
  | CreateReq string "'n obj"
  | UpdateReq string string "'n obj"
  | DeleteReq string string

fun data_route :: "'n env \<Rightarrow> 'n store \<Rightarrow> 'n data_request \<Rightarrow> 'n store \<times> 'n outcome" where
  "data_route env st (ListReq table) = data_list st table"
| "data_route env st (CreateReq table item) = data_create env st table item"
| "data_route env st (UpdateReq table pid body) = data_update env st table pid body"
| "data_route env st (DeleteReq table pid) = data_delete env st table pid"

fun request_table :: "'n data_request \<Rightarrow> string" where
  "request_table (ListReq table) = table"
| "request_table (CreateReq table item) = table"
| "request_table (UpdateReq table pid body) = table"
| "request_table (DeleteReq table pid) = table"


section \<open>Vocabulary of the specification\<close>











text \<open>
  A search with a callback that may throw arrives at position \<open>i\<close> when the callback
  has returned \<open>false\<close> on every element before it.
\<close>

definition reaches :: "('a \<Rightarrow> error + bool) \<Rightarrow> 'a list \<Rightarrow> nat \<Rightarrow> bool" where
  "reaches p xs i = (i < length xs \<and> (\<forall>j<i. p (xs ! j) = Inr False))"

text \<open>
  The shape the handlers give the store: \<^verbatim>\<open>pending\<close> holds an object or nothing, every
  other key an array or nothing.
\<close>

definition store_shape :: "'n store \<Rightarrow> bool" where
  "store_shape st =
     ((\<forall>rs. st ''pending'' \<noteq> Some (Records rs))
      \<and> (\<forall>k m. k \<noteq> ''pending'' \<longrightarrow> st k \<noteq> Some (Mapping m)))"

section \<open>A sample environment and store\<close>

text \<open>
  Concrete data on which the handlers are evaluated below: numbers are naturals printed
  in decimal, case folding is that of the ASCII letters, the hash of \<open>s\<close> is a fixed
  prefix before \<open>s\<close>, the clock stands at one instant and the mail is delivered.
\<close>

fun decimal :: "nat \<Rightarrow> string" where
  "decimal n = (if n < 10 then [''0123456789'' ! n] else decimal (n div 10) @ [''0123456789'' ! (n mod 10)])"

definition ascii_lower :: "char \<Rightarrow> char" where
  "ascii_lower c =
     (case map_of (zip ''ABCDEFGHIJKLMNOPQRSTUVWXYZ'' ''abcdefghijklmnopqrstuvwxyz'') c of
        Some l \<Rightarrow> l
      | None \<Rightarrow> c)"

definition demo_env :: "nat env" where
  "demo_env =
     \<lparr> toLowerCase = map ascii_lower,
       number_toString = decimal,
       number_falsy = (\<lambda>n. n = 0),
       bcrypt_hash = (\<lambda>s. ''$2a$10$'' @ s),
       bcrypt_compare = (\<lambda>s h. h = ''$2a$10$'' @ s),
       jwt_sign = (\<lambda>p. ''e30.c2ln''),
       date_now = 1730000000000,
       date_iso = ''2024-10-27T03:33:20.000Z'',
       random_digits = [18, 3, 35, 0, 7, 22, 9, 1],
       base_url = ''https://phongnews.example'',
       sendMail_fails = False,
       error_message = (\<lambda>e. ''failed'') \<rparr>"

definition ann :: "nat obj" where
  "ann = [(''name'', JStr ''Ann''), (''email'', JStr ''Ann@X.io''),
          (''password'', JStr ''$2a$10$secret''), (''createdAt'', JStr ''2024-10-01T08:00:00.000Z''),
          (''approved'', JBool True)]"

definition bob :: "nat obj" where
  "bob = [(''name'', JStr ''Bob''), (''email'', JStr ''bob@x.io''),
          (''password'', JStr ''$2a$10$hunter2''), (''createdAt'', JStr ''2024-10-02T09:30:00.000Z''),
          (''approved'', JBool False)]"

definition sample_store :: "nat store" where
  "sample_store =
     (\<lambda>k. None)(''users'' \<mapsto> Records [ann, bob],
               ''data_rooms'' \<mapsto> Records [[(''number'', JNum 101), (''id'', JNum 5)],
                                            [(''number'', JNum 102), (''id'', JNum 6)],
                                            [(''number'', JNum 103), (''id'', JNum 5)]])"

text \<open>
  The sample store after one more request: a \<^verbatim>\<open>PUT\<close> on room 6 whose body sets the id
  to the object \<^verbatim>\<open>{"toString":1}\<close>.
\<close>

definition odd_store :: "nat store" where
  "odd_store =
     redis_set sample_store (data_key ''rooms'')
       (Records [[(''number'', JNum 101), (''id'', JNum 5)],
                 [(''number'', JNum 102), (''id'', JObj [(''toString'', JNum 1)])],
                 [(''number'', JNum 103), (''id'', JNum 5)]])"





section \<open>Properties of objects and searches\<close>

lemma array_index_not_digit: "\<not> is_digit c \<Longrightarrow> array_index (c # cs) = None"
  by (simp add: array_index_def)

lemma map_of_replace_prop:
  "map_of ps k = Some old \<Longrightarrow> map_of (replace_prop k v ps) = (map_of ps)(k \<mapsto> v)"
  by (induction ps) (auto simp: fun_eq_iff)

lemma map_of_insert_index:
  "map_of ps k = None \<Longrightarrow> map_of (insert_index n k v ps) = (map_of ps)(k \<mapsto> v)"
proof (induction ps)
  case Nil
  show ?case by simp
next
  case (Cons p ps)
  then have "fst p \<noteq> k" and "map_of ps k = None"
    by (auto split: if_splits)
  with Cons.IH show ?case
    by (cases p) (auto simp: fun_eq_iff split: option.splits)
qed

lemma map_of_append_new:
  "map_of ps k = None \<Longrightarrow> map_of (ps @ [(k, v)]) = (map_of ps)(k \<mapsto> v)"
  by (induction ps) (auto simp: fun_eq_iff simp del: map_of_append)

lemma get_prop_set_prop: "get_prop (set_prop k v ps) = (get_prop ps)(k \<mapsto> v)"
  unfolding get_prop_def set_prop_def
  by (auto simp: map_of_replace_prop map_of_insert_index map_of_append_new
      simp del: map_of_append split: option.splits)

lemma get_prop_delete_prop: "get_prop (delete_prop k ps) = (get_prop ps)(k := None)"
  by (induction ps) (auto simp: get_prop_def delete_prop_def fun_eq_iff)

lemma length_replace_prop: "length (replace_prop k v ps) = length ps"
  by (induction ps) auto

lemma length_insert_index: "length (insert_index n k v ps) = Suc (length ps)"
  by (induction ps) (auto split: option.splits)

lemma length_set_prop:
  "length (set_prop k v ps) = (if get_prop ps k = None then Suc (length ps) else length ps)"
  by (simp add: set_prop_def get_prop_def length_replace_prop length_insert_index
      split: option.splits)

lemma set_prop_new_name:
  "get_prop ps k = None \<Longrightarrow> array_index k = None \<Longrightarrow> set_prop k v ps = ps @ [(k, v)]"
  by (simp add: set_prop_def get_prop_def)

lemma get_prop_fold_absent:
  "k \<notin> fst ` set b \<Longrightarrow> get_prop (fold (\<lambda>p. set_prop (fst p) (snd p)) b a) k = get_prop a k"
  by (induction b arbitrary: a) (auto simp: get_prop_set_prop)

lemma get_prop_spread_absent:
  "get_prop b k = None \<Longrightarrow> get_prop (spread a b) k = get_prop a k"
  unfolding spread_def
  by (rule get_prop_fold_absent) (simp add: get_prop_def map_of_eq_None_iff)

lemma get_prop_fold_present:
  "distinct (map fst b) \<Longrightarrow> (k, v) \<in> set b \<Longrightarrow>
     get_prop (fold (\<lambda>p. set_prop (fst p) (snd p)) b a) k = Some v"
proof (induction b arbitrary: a)
  case Nil
  then show ?case by simp
next
  case (Cons p b)
  show ?case
  proof (cases "p = (k, v)")
    case True
    with Cons.prems have "k \<notin> fst ` set b" by auto
    then show ?thesis using True
      by (simp add: get_prop_fold_absent get_prop_set_prop)
  next
    case False
    with Cons show ?thesis by auto
  qed
qed

lemma get_prop_spread_present:
  "distinct (map fst b) \<Longrightarrow> get_prop b k = Some v \<Longrightarrow> get_prop (spread a b) k = Some v"
  unfolding spread_def
  by (rule get_prop_fold_present) (auto simp: get_prop_def dest: map_of_SomeD)

lemma length_spread_ge: "length a \<le> length (spread a b)"
  unfolding spread_def
proof (induction b arbitrary: a)
  case Nil
  show ?case by simp
next
  case (Cons p b)
  have "length a \<le> length (set_prop (fst p) (snd p) a)"
    by (simp add: length_set_prop)
  also have "\<dots> \<le> length (fold (\<lambda>p. set_prop (fst p) (snd p)) b (set_prop (fst p) (snd p) a))"
    by (rule Cons.IH)
  finally show ?case by simp
qed

text \<open>What a search returns, by the position it arrives at.\<close>

lemma reaches_Cons:
  "reaches p (x # xs) i \<longleftrightarrow> i = 0 \<or> (\<exists>n. i = Suc n \<and> p x = Inr False \<and> reaches p xs n)"
proof (cases i)
  case 0
  then show ?thesis by (simp add: reaches_def)
next
  case (Suc n)
  have "(\<forall>j<Suc n. p ((x # xs) ! j) = Inr False) \<longleftrightarrow> p x = Inr False \<and> (\<forall>j<n. p (xs ! j) = Inr False)"
    by (auto simp: less_Suc_eq_0_disj)
  with Suc show ?thesis by (auto simp: reaches_def)
qed

lemma js_findIndex_none:
  "js_findIndex p xs = Inr None \<longleftrightarrow> (\<forall>x\<in>set xs. p x = Inr False)"
  by (induction xs) (auto split: sum.splits option.splits bool.splits)

lemma js_findIndex_some:
  "js_findIndex p xs = Inr (Some i) \<longleftrightarrow> reaches p xs i \<and> p (xs ! i) = Inr True"
proof (induction xs arbitrary: i)
  case Nil
  show ?case by (simp add: reaches_def)
next
  case (Cons x xs)
  show ?case
  proof (cases "p x")
    case (Inl e)
    then show ?thesis by (cases i) (auto simp: reaches_Cons)
  next
    case (Inr b)
    show ?thesis
    proof (cases b)
      case True
      with Inr show ?thesis by (cases i) (auto simp: reaches_Cons)
    next
      case False
      with Inr have px: "p x = Inr False" by simp
      have step: "js_findIndex p (x # xs) = Inr (Some i) \<longleftrightarrow>
                  (\<exists>n. i = Suc n \<and> js_findIndex p xs = Inr (Some n))"
        using px by (auto split: sum.splits option.splits)
      show ?thesis
      proof (cases i)
        case 0
        with px step show ?thesis by simp
      next
        case (Suc n)
        with px step Cons.IH[of n] show ?thesis by (simp add: reaches_Cons)
      qed
    qed
  qed
qed

lemma js_findIndex_throws:
  "js_findIndex p xs = Inl e \<longleftrightarrow> (\<exists>i. reaches p xs i \<and> p (xs ! i) = Inl e)"
proof (induction xs)
  case Nil
  show ?case by (simp add: reaches_def)
next
  case (Cons x xs)
  show ?case
  proof (cases "p x")
    case (Inl e')
    then show ?thesis
      by (auto simp: reaches_Cons intro: exI[of _ 0])
  next
    case (Inr b)
    show ?thesis
    proof (cases b)
      case True
      with Inr show ?thesis by (auto simp: reaches_Cons)
    next
      case False
      have "(\<exists>i. reaches p (x # xs) i \<and> p ((x # xs) ! i) = Inl e) \<longleftrightarrow>
            (\<exists>n. reaches p xs n \<and> p (xs ! n) = Inl e)"
        using Inr False by (auto simp: reaches_Cons)
      with Inr False Cons.IH show ?thesis
        by (auto split: sum.splits option.splits)
    qed
  qed
qed






text \<open>A filter whose callback throws on no element is the filter of the list; one whose
  callback throws on some element throws.\<close>

lemma js_filter_total:
  "(\<forall>x\<in>set xs. p x = Inr (P x)) \<Longrightarrow> js_filter p xs = Inr (filter P xs)"
  by (induction xs) auto

lemma js_filter_throws:
  "(\<exists>e. js_filter p xs = Inl e) \<longleftrightarrow> (\<exists>x\<in>set xs. \<exists>e. p x = Inl e)"
  by (induction xs) (auto split: sum.splits)

lemma js_filter_error:
  "js_filter p xs = Inl e \<Longrightarrow> \<exists>x\<in>set xs. p x = Inl e"
  by (induction xs) (auto split: sum.splits)

section \<open>Searching users by email\<close>










section \<open>The branches of the auth handlers\<close>

lemma mint_token_not_proto: "mint_token env p \<noteq> ''__proto__''"
  by (simp add: mint_token_def jwt_header_def)

lemma computed_set_token:
  "computed_set (mint_token env p) d m = set_prop (mint_token env p) d m"
  by (simp add: computed_set_def mint_token_not_proto)


lemma same_email_missing: "same_email env None u = Inl TypeError"
  by (simp add: same_email_def split: option.splits json.splits)

text \<open>Login and the forgotten-password route do not look whether the body has an
  email: with a user stored, the search throws on a body without one.\<close>

lemma login_email_missing:
  assumes "readUsers st = Records (u # us)" and "get_prop body ''email'' = None"
  shows "login env st body = (st, Uncaught TypeError)"
  using assms by (simp add: login_def js_find_def same_email_missing)

lemma forgot_email_missing:
  assumes "readUsers st = Records (u # us)" and "get_prop body ''email'' = None"
  shows "forgot env st body = (st, Uncaught TypeError)"
  using assms by (simp add: forgot_def same_email_missing)




lemma register_fresh:
  assumes "truthy env (get_prop body ''name'')" "truthy env (get_prop body ''email'')"
      "truthy env (get_prop body ''password'')"
      "readUsers st = Records users"
      "js_findIndex (same_email env (get_prop body ''email'')) users = Inr None"
  shows "register_try env st body =
           (case get_prop body ''password'' of
              Some (JStr pw) \<Rightarrow>
                (let st' = savePending st
                       (case readPending st of
                          Mapping m \<Rightarrow> Mapping (set_prop (mint_token env (get_prop body ''email''))
                             (userDraft env (the (get_prop body ''name'')) (the (get_prop body ''email'')) pw) m)
                        | Records rs \<Rightarrow> Records rs)
                 in case approval_html env (the (get_prop body ''name'')) (the (get_prop body ''email''))
                           (approveUrl env (mint_token env (get_prop body ''email''))) of
                      Inl e \<Rightarrow> (st', Inl e)
                    | Inr html \<Rightarrow>
                        if sendMail_fails env then (st', Inl MailError)
                        else (st', Inr (Reply 200 (message msg_registered))))
            | _ \<Rightarrow> (st, Inl IllegalArguments))"
  using assms
  by (simp add: register_try_def Let_def js_find_def computed_set_token
      split: option.splits json.splits cell.splits sum.splits)









section \<open>The branches of the data handlers\<close>

lemma data_update_none:
  assumes "or_empty_list (redis_get st (data_key table)) = Records list"
      and "\<forall>i\<in>set list. id_matches env pid i = Inr False"
  shows "data_update env st table pid body = (st, Reply 404 (message msg_item_not_found))"
proof -
  from assms(2) have "js_findIndex (id_matches env pid) list = Inr None"
    by (simp add: js_findIndex_none)
  with assms(1) show ?thesis by (simp add: data_update_def)
qed

lemma data_update_found:
  assumes "or_empty_list (redis_get st (data_key table)) = Records list"
      and "reaches (id_matches env pid) list idx"
      and "id_matches env pid (list ! idx) = Inr True"
  shows "data_update env st table pid body =
           (redis_set st (data_key table) (Records (list[idx := spread (list ! idx) body])),
            Reply 200 ok_true)"
proof -
  from assms(2,3) have "js_findIndex (id_matches env pid) list = Inr (Some idx)"
    by (simp add: js_findIndex_some)
  with assms(1) show ?thesis by (simp add: data_update_def)
qed

lemma data_update_throws:
  assumes "or_empty_list (redis_get st (data_key table)) = Records list"
      and "reaches (id_matches env pid) list idx"
      and "id_matches env pid (list ! idx) = Inl e"
  shows "data_update env st table pid body = (st, Uncaught e)"
proof -
  from assms(2,3) have "js_findIndex (id_matches env pid) list = Inl e"
    unfolding js_findIndex_throws by blast
  with assms(1) show ?thesis by (simp add: data_update_def)
qed

lemma id_differs_matches:
  "id_matches env pid i = Inr b \<Longrightarrow> id_differs env pid i = Inr (\<not> b)"
  by (auto simp: id_matches_def id_differs_def split: sum.splits)

lemma id_differs_throws:
  "id_differs env pid i = Inl e \<longleftrightarrow> id_matches env pid i = Inl e"
  by (auto simp: id_matches_def id_differs_def split: sum.splits)

lemma data_delete_total:
  assumes "or_empty_list (redis_get st (data_key table)) = Records list"
      and "\<forall>i\<in>set list. \<exists>b. id_matches env pid i = Inr b"
  shows "data_delete env st table pid =
           (redis_set st (data_key table)
              (Records (filter (\<lambda>i. id_matches env pid i = Inr False) list)),
            Reply 200 ok_true)"
proof -
  have "\<forall>i\<in>set list. id_differs env pid i = Inr (id_matches env pid i = Inr False)"
  proof
    fix i assume "i \<in> set list"
    with assms(2) obtain b where b: "id_matches env pid i = Inr b" by blast
    from id_differs_matches[OF b] b show "id_differs env pid i = Inr (id_matches env pid i = Inr False)"
      by simp
  qed
  then have "js_filter (id_differs env pid) list =
               Inr (filter (\<lambda>i. id_matches env pid i = Inr False) list)"
    by (rule js_filter_total)
  with assms(1) show ?thesis by (simp add: data_delete_def)
qed

lemma data_delete_throws:
  assumes "or_empty_list (redis_get st (data_key table)) = Records list"
      and "\<exists>i\<in>set list. \<exists>e. id_matches env pid i = Inl e"
  shows "\<exists>e. data_delete env st table pid = (st, Uncaught e)"
proof -
  from assms(2) have "\<exists>i\<in>set list. \<exists>e. id_differs env pid i = Inl e"
    by (simp add: id_differs_throws)
  then have "\<exists>e. js_filter (id_differs env pid) list = Inl e"
    by (simp add: js_filter_throws)
  then obtain e where "js_filter (id_differs env pid) list = Inl e" ..
  with assms(1) have "data_delete env st table pid = (st, Uncaught e)"
    by (simp add: data_delete_def)
  then show ?thesis ..
qed

text \<open>The conversion of an id throws only a \<^verbatim>\<open>TypeError\<close>.\<close>

lemma join_comma_error:
  "join_comma rs = Inl e \<Longrightarrow> \<exists>r\<in>set rs. r = Inl e"
  by (induction rs rule: join_comma.induct) (auto split: sum.splits)

lemma to_string_error: "to_string env v = Inl e \<Longrightarrow> e = TypeError"
proof (induction env v rule: to_string.induct)
  case (5 env xs)
  then show ?case
    by (auto dest!: join_comma_error split: json.splits)
qed (auto split: option.splits)

lemma id_matches_error: "id_matches env pid i = Inl e \<Longrightarrow> e = TypeError"
  by (auto simp: id_matches_def String_def split: sum.splits option.splits dest: to_string_error)

section \<open>The shape of the store\<close>

text \<open>The empty store has the shape, every handler keeps it, and under it the three
  reads of the handlers find what they expect.\<close>

lemma store_shape_empty: "store_shape (\<lambda>k. None)"
  by (simp add: store_shape_def)

lemma store_shape_users: "store_shape st \<Longrightarrow> \<exists>users. readUsers st = Records users"
  by (cases "st ''users''")
     (auto simp: store_shape_def readUsers_def or_empty_list_def redis_get_def split: cell.splits
        intro: cell.exhaust)

lemma store_shape_pending: "store_shape st \<Longrightarrow> \<exists>pending. readPending st = Mapping pending"
  by (cases "st ''pending''")
     (auto simp: store_shape_def readPending_def or_empty_object_def redis_get_def
        intro: cell.exhaust)

lemma store_shape_data:
  "store_shape st \<Longrightarrow> \<exists>list. or_empty_list (redis_get st (data_key table)) = Records list"
proof -
  assume s: "store_shape st"
  have k: "data_key table \<noteq> ''pending''" by (simp add: data_key_def)
  show ?thesis
  proof (cases "st (data_key table)")
    case None
    then show ?thesis by (simp add: or_empty_list_def redis_get_def)
  next
    case (Some c)
    with s k show ?thesis
      by (cases c) (auto simp: store_shape_def or_empty_list_def redis_get_def)
  qed
qed

lemma store_shape_set_list:
  "store_shape st \<Longrightarrow> k \<noteq> ''pending'' \<Longrightarrow> store_shape (redis_set st k (Records rs))"
  by (simp add: store_shape_def redis_set_def)

lemma store_shape_set_pending:
  "store_shape st \<Longrightarrow> store_shape (redis_set st ''pending'' (Mapping m))"
  by (simp add: store_shape_def redis_set_def)

lemma data_route_shape:
  assumes "store_shape st"
  shows "store_shape (fst (data_route env st r))"
proof -
  have k: "data_key t \<noteq> ''pending''" for t by (simp add: data_key_def)
  show ?thesis
  proof (cases r)
    case (ListReq table)
    with assms show ?thesis by (simp add: data_list_def)
  next
    case (CreateReq table item)
    with assms k show ?thesis
      by (simp add: data_create_def store_shape_set_list split: cell.splits)
  next
    case (UpdateReq table pid body)
    with assms k show ?thesis
      by (simp add: data_update_def store_shape_set_list split: cell.splits sum.splits option.splits)
  next
    case (DeleteReq table pid)
    with assms k show ?thesis
      by (simp add: data_delete_def store_shape_set_list split: cell.splits sum.splits)
  qed
qed

lemma register_try_shape:
  assumes "store_shape st"
  shows "store_shape (fst (register_try env st body))"
proof -
  from store_shape_pending[OF assms] obtain pending where p: "readPending st = Mapping pending" ..
  show ?thesis
    using assms
    by (simp add: register_try_def Let_def p savePending_def store_shape_set_pending
        split: cell.splits sum.splits option.splits json.splits)
qed

lemma register_shape:
  assumes "store_shape st"
  shows "store_shape (fst (register env st body))"
proof -
  have "fst (register env st body) = fst (register_try env st body)"
    by (simp add: register_def split: prod.splits sum.splits)
  with register_try_shape[OF assms] show ?thesis by simp
qed

lemma approve_shape:
  assumes "store_shape st"
  shows "store_shape (fst (approve st token))"
proof -
  have u: "''users'' \<noteq> ''pending''" by simp
  have step: "store_shape (savePending (saveUsers st (Records us)) (Mapping m))" for us m
    unfolding savePending_def saveUsers_def
    by (intro store_shape_set_pending store_shape_set_list assms u)
  show ?thesis
    using assms
    by (simp add: approve_def Let_def step split: option.splits cell.splits lookup.splits)
qed

lemma login_shape: "fst (login env st body) = st"
  by (simp add: login_def Let_def split: cell.splits sum.splits option.splits json.splits)

lemma forgot_shape:
  assumes "store_shape st"
  shows "store_shape (fst (forgot env st body))"
  using assms
  by (simp add: forgot_def Let_def saveUsers_def store_shape_set_list
      split: cell.splits sum.splits option.splits)

section \<open>Approval of a token the mapping has or lacks\<close>

text \<open>
  For a token that names no property of \<open>Object.prototype\<close> the approval does what the
  specification says: 400 without a token, 404 for a token the mapping lacks, and for a
  token of the mapping the draft is promoted once and the same request again gets 404.
\<close>

lemma approve_missing_token:
  "approve st None = (st, Reply 400 (Text msg_missing_token))"
  "approve st (Some []) = (st, Reply 400 (Text msg_missing_token))"
  by (simp_all add: approve_def)

lemma approve_unknown_token:
  assumes "t \<noteq> []" and "readPending st = Mapping pending"
      and "get_prop pending t = None" and "t \<notin> set object_prototype_props"
  shows "approve st (Some t) = (st, Reply 404 (Text msg_invalid_token))"
  using assms by (simp add: approve_def computed_get_def get_prop_def)

lemma approve_own_token_once:
  assumes t: "t \<noteq> []" "t \<notin> set object_prototype_props"
      and p: "readPending st = Mapping pending" and d: "get_prop pending t = Some draft"
      and u: "readUsers st = Records users"
  shows "approve st (Some t) =
           (st(''users'' \<mapsto> Records (users @ [set_prop ''approved'' (JBool True) draft]),
               ''pending'' \<mapsto> Mapping (delete_prop t pending)),
            Reply 200 (Text msg_approved))"
    and "approve (fst (approve st (Some t))) (Some t) =
           (fst (approve st (Some t)), Reply 404 (Text msg_invalid_token))"
proof -
  let ?st' = "st(''users'' \<mapsto> Records (users @ [set_prop ''approved'' (JBool True) draft]),
               ''pending'' \<mapsto> Mapping (delete_prop t pending))"
  show first: "approve st (Some t) = (?st', Reply 200 (Text msg_approved))"
    using t p d u
    by (simp add: approve_def computed_get_def get_prop_def saveUsers_def savePending_def
        redis_set_def)
  have p': "readPending ?st' = Mapping (delete_prop t pending)"
    by (simp add: readPending_def or_empty_object_def redis_get_def)
  have gone: "get_prop (delete_prop t pending) t = None"
    by (simp add: get_prop_delete_prop)
  from approve_unknown_token[OF t(1) p' gone t(2)]
  show "approve (fst (approve st (Some t))) (Some t) =
           (fst (approve st (Some t)), Reply 404 (Text msg_invalid_token))"
    unfolding first by simp
qed

text \<open>
  A token that names a property of \<open>Object.prototype\<close> and is no key of the mapping is
  approved all the same, on any store: a user with the approval flag alone is appended
  and the mapping stays as it is, so that the request can be repeated.
\<close>

lemma set_prop_approved_empty: "set_prop ''approved'' v [] = [(''approved'', v)]"
  by (simp add: set_prop_def array_index_not_digit is_digit_def)

lemma delete_prop_absent: "get_prop ps k = None \<Longrightarrow> delete_prop k ps = ps"
  by (induction ps) (auto simp: get_prop_def delete_prop_def split: if_splits)

lemma approve_inherited_token:
  assumes t: "t \<in> set object_prototype_props"
      and p: "readPending st = Mapping pending" and d: "get_prop pending t = None"
      and u: "readUsers st = Records users"
  shows "approve st (Some t) =
           (st(''users'' \<mapsto> Records (users @ [[(''approved'', JBool True)]]),
               ''pending'' \<mapsto> Mapping pending),
            Reply 200 (Text msg_approved))"
proof -
  from t have ne: "t \<noteq> []" by (auto simp: object_prototype_props_def)
  from t d have look: "computed_get pending t = Inherited"
    by (simp add: computed_get_def get_prop_def)
  show ?thesis
    using ne p u
    by (simp add: approve_def look delete_prop_absent[OF d] saveUsers_def savePending_def
        redis_set_def set_prop_approved_empty)
qed

section \<open>The sample data evaluated\<close>

lemma sample_users: "readUsers sample_store = Records [ann, bob]"
  by (simp add: readUsers_def or_empty_list_def redis_get_def sample_store_def)

lemma sample_pending: "readPending sample_store = Mapping []"
  by (simp add: readPending_def or_empty_object_def redis_get_def sample_store_def)

lemma sample_rooms:
  "or_empty_list (redis_get sample_store (data_key ''rooms'')) =
     Records [[(''number'', JNum 101), (''id'', JNum 5)],
              [(''number'', JNum 102), (''id'', JNum 6)],
              [(''number'', JNum 103), (''id'', JNum 5)]]"
  by (simp add: or_empty_list_def redis_get_def sample_store_def data_key_def)


lemma lower_Ann: "toLowerCase demo_env ''Ann@X.io'' = ''ann@x.io''"
  by (simp add: demo_env_def ascii_lower_def)


lemma lower_bob: "toLowerCase demo_env ''bob@x.io'' = ''bob@x.io''"
  by (simp add: demo_env_def ascii_lower_def)


lemma lower_eve: "toLowerCase demo_env ''eve@x.io'' = ''eve@x.io''"
  by (simp add: demo_env_def ascii_lower_def)



lemma match5:
  "id_matches demo_env ''5'' [(''number'', JNum 101), (''id'', JNum 5)] = Inr True"
  "id_matches demo_env ''5'' [(''number'', JNum 102), (''id'', JNum 6)] = Inr False"
  "id_matches demo_env ''5'' [(''number'', JNum 103), (''id'', JNum 5)] = Inr True"
  by (simp_all add: id_matches_def String_def get_prop_def demo_env_def)

lemma match6:
  "id_matches demo_env ''6'' [(''number'', JNum 101), (''id'', JNum 5)] = Inr False"
  "id_matches demo_env ''6'' [(''number'', JNum 102), (''id'', JNum 6)] = Inr True"
  "id_matches demo_env ''6'' [(''number'', JNum 103), (''id'', JNum 5)] = Inr False"
  by (simp_all add: id_matches_def String_def get_prop_def demo_env_def)

lemma match7:
  "id_matches demo_env ''7'' [(''number'', JNum 101), (''id'', JNum 5)] = Inr False"
  "id_matches demo_env ''7'' [(''number'', JNum 102), (''id'', JNum 6)] = Inr False"
  "id_matches demo_env ''7'' [(''number'', JNum 103), (''id'', JNum 5)] = Inr False"
  "id_matches demo_env ''7'' [(''number'', JNum 102), (''id'', JObj [(''toString'', JNum 1)])]
     = Inl TypeError"
  by (simp_all add: id_matches_def String_def get_prop_def demo_env_def)

lemma name_keys:
  "array_index ''id'' = None" "array_index ''number'' = None" "array_index ''approved'' = None"
  "array_index ''password'' = None" "array_index ''7'' = Some 7"
  "array_index (mint_token env p) = None"
  by (simp_all add: array_index_not_digit is_digit_def mint_token_def jwt_header_def
      array_index_def decimal_value_def)

lemma odd_rooms:
  "or_empty_list (redis_get odd_store (data_key ''rooms'')) =
     Records [[(''number'', JNum 101), (''id'', JNum 5)],
              [(''number'', JNum 102), (''id'', JObj [(''toString'', JNum 1)])],
              [(''number'', JNum 103), (''id'', JNum 5)]]"
  by (simp add: or_empty_list_def redis_get_def redis_set_def odd_store_def)










section \<open>The specification's claims\<close>

text \<open>
  Claim C1. A second approval with the same token is to answer 404 and leave the user
  list as it is, for every token, and a token absent from the pending mapping is to
  answer 404. The handler reads \<^verbatim>\<open>pending[token]\<close> through the prototype chain: on the
  empty store the token \<^verbatim>\<open>constructor\<close> is no key of the pending mapping, yet the
  approval answers 200 and appends a user that has only \<^verbatim>\<open>approved: true\<close>; the same
  request again answers 200 and appends a second such user.
\<close>

theorem approve_inherited_token_twice:
  "snd (approve (\<lambda>k. None :: nat cell option) (Some ''constructor'')) = Reply 200 (Text msg_approved)
   \<and> fst (approve (\<lambda>k. None :: nat cell option) (Some ''constructor'')) ''users'' =
       Some (Records [[(''approved'', JBool True)]])
   \<and> fst (approve (\<lambda>k. None :: nat cell option) (Some ''constructor'')) ''pending'' = Some (Mapping [])
   \<and> snd (approve (fst (approve (\<lambda>k. None :: nat cell option) (Some ''constructor'')))
             (Some ''constructor'')) = Reply 200 (Text msg_approved)
   \<and> fst (approve (fst (approve (\<lambda>k. None :: nat cell option) (Some ''constructor'')))
             (Some ''constructor'')) ''users'' =
       Some (Records [[(''approved'', JBool True)], [(''approved'', JBool True)]])"
proof -
  have look: "computed_get ([] :: (string \<times> nat obj) list) ''constructor'' = Inherited"
    by (simp add: computed_get_def object_prototype_props_def)
  have first: "approve (\<lambda>k. None :: nat cell option) (Some ''constructor'') =
      ((\<lambda>k. None)(''users'' \<mapsto> Records [[(''approved'', JBool True)]], ''pending'' \<mapsto> Mapping []),
       Reply 200 (Text msg_approved))"
    by (simp add: approve_def readPending_def readUsers_def or_empty_object_def or_empty_list_def
        redis_get_def redis_set_def saveUsers_def savePending_def look delete_prop_def
        set_prop_def name_keys)
  have second: "approve ((\<lambda>k. None :: nat cell option)
        (''users'' \<mapsto> Records [[(''approved'', JBool True)]], ''pending'' \<mapsto> Mapping []))
        (Some ''constructor'') =
      ((\<lambda>k. None)(''users'' \<mapsto> Records [[(''approved'', JBool True)], [(''approved'', JBool True)]],
                  ''pending'' \<mapsto> Mapping []),
       Reply 200 (Text msg_approved))"
    by (simp add: approve_def readPending_def readUsers_def or_empty_object_def or_empty_list_def
        redis_get_def redis_set_def saveUsers_def savePending_def look delete_prop_def
        set_prop_def name_keys)
  show ?thesis
    unfolding first fst_conv second by simp
qed








text \<open>
  Claim C5. For a table outside the whitelist, list and create answer 400 with the body
  of the single field \<^verbatim>\<open>message\<close>, whose text is given by its UTF-8 bytes, and return the
  store as it was, whatever it holds. Update and delete have no such check: they never
  answer 400, and on the same table delete, when the ids under \<^verbatim>\<open>data_<table>\<close> convert
  to strings, answers 200 and writes the filtered list under that key, while update
  answers 404 when no id there is equal to the path id, and answers 200 and writes
  under that key when the search arrives at a record with that id.
\<close>

theorem whitelist_asymmetry:
  assumes "table \<notin> set allowedTables"
  shows "data_list st table =
           (st, Reply 400 (Json (JObj [(''message'', JStr (''Table kh'' @ [CHR 0xC3, CHR 0xB4]
              @ ''ng h'' @ [CHR 0xE1, CHR 0xBB, CHR 0xA3] @ ''p l'' @ [CHR 0xE1, CHR 0xBB, CHR 0x87]))])))
       \<and> data_create env st table item =
           (st, Reply 400 (Json (JObj [(''message'', JStr (''Table kh'' @ [CHR 0xC3, CHR 0xB4]
              @ ''ng h'' @ [CHR 0xE1, CHR 0xBB, CHR 0xA3] @ ''p l'' @ [CHR 0xE1, CHR 0xBB, CHR 0x87]))])))
       \<and> (\<forall>pl. snd (data_update env st table pid body) \<noteq> Reply 400 pl)
       \<and> (\<forall>pl. snd (data_delete env st table pid) \<noteq> Reply 400 pl)
       \<and> (\<forall>list. or_empty_list (redis_get st (data_key table)) = Records list \<longrightarrow>
             ((\<forall>i\<in>set list. \<exists>b. id_matches env pid i = Inr b) \<longrightarrow>
                data_delete env st table pid =
                  (st(data_key table \<mapsto> Records (filter (\<lambda>i. id_matches env pid i = Inr False) list)),
                   Reply 200 ok_true))
           \<and> ((\<forall>i\<in>set list. id_matches env pid i = Inr False) \<longrightarrow>
                 data_update env st table pid body = (st, Reply 404 (message msg_item_not_found)))
           \<and> (\<forall>idx. reaches (id_matches env pid) list idx \<longrightarrow>
                 id_matches env pid (list ! idx) = Inr True \<longrightarrow>
                 (\<exists>list'. data_update env st table pid body =
                             (st(data_key table \<mapsto> Records list'), Reply 200 ok_true)
                          \<and> length list' = length list)))"
proof -
  have l: "data_list st table = (st, Reply 400 (message msg_invalid_table))"
    using assms by (simp add: data_list_def)
  have c: "data_create env st table item = (st, Reply 400 (message msg_invalid_table))"
    using assms by (simp add: data_create_def)
  have nu: "snd (data_update env st table pid body) \<noteq> Reply 400 pl" for pl
    by (simp add: data_update_def message_def split: cell.splits sum.splits option.splits)
  have nd: "snd (data_delete env st table pid) \<noteq> Reply 400 pl" for pl
    by (simp add: data_delete_def split: cell.splits sum.splits)
  have d: "data_delete env st table pid =
             (st(data_key table \<mapsto> Records (filter (\<lambda>i. id_matches env pid i = Inr False) list)),
              Reply 200 ok_true)"
    if "or_empty_list (redis_get st (data_key table)) = Records list"
       "\<forall>i\<in>set list. \<exists>b. id_matches env pid i = Inr b" for list
    using data_delete_total[OF that] by (simp add: redis_set_def)
  have u1: "data_update env st table pid body = (st, Reply 404 (message msg_item_not_found))"
    if "or_empty_list (redis_get st (data_key table)) = Records list"
       "\<forall>i\<in>set list. id_matches env pid i = Inr False" for list
    using that by (rule data_update_none)
  have u2: "\<exists>list'. data_update env st table pid body =
                      (st(data_key table \<mapsto> Records list'), Reply 200 ok_true)
                   \<and> length list' = length list"
    if "or_empty_list (redis_get st (data_key table)) = Records list"
       "reaches (id_matches env pid) list idx" "id_matches env pid (list ! idx) = Inr True"
    for list idx
    using data_update_found[OF that, of body]
    by (intro exI[of _ "list[idx := spread (list ! idx) body]"]) (simp add: redis_set_def)
  show ?thesis
    apply (intro conjI allI impI)
    subgoal using l by (simp add: message_def msg_invalid_table_def)
    subgoal using c by (simp add: message_def msg_invalid_table_def)
    subgoal for pl by (rule nu)
    subgoal for pl by (rule nd)
    subgoal for list by (rule d)
    subgoal for list by (rule u1)
    subgoal for list idx by (rule u2)
    done
qed

text \<open>Witness for C5: the table \<^verbatim>\<open>rooms2\<close>, which the whitelist does not have, with two
  records stored under its key.\<close>

theorem whitelist_asymmetry_witness:
  "''rooms2'' \<notin> set allowedTables
   \<and> data_list (sample_store(''data_rooms2'' \<mapsto> Records [[(''id'', JNum 5)], [(''id'', JNum 6)]])) ''rooms2'' =
       (sample_store(''data_rooms2'' \<mapsto> Records [[(''id'', JNum 5)], [(''id'', JNum 6)]]),
        Reply 400 (Json (JObj [(''message'', JStr (''Table kh'' @ [CHR 0xC3, CHR 0xB4]
              @ ''ng h'' @ [CHR 0xE1, CHR 0xBB, CHR 0xA3] @ ''p l'' @ [CHR 0xE1, CHR 0xBB, CHR 0x87]))])))
   \<and> data_delete demo_env (sample_store(''data_rooms2'' \<mapsto> Records [[(''id'', JNum 5)], [(''id'', JNum 6)]]))
         ''rooms2'' ''5'' =
       (sample_store(''data_rooms2'' \<mapsto> Records [[(''id'', JNum 6)]]), Reply 200 ok_true)
   \<and> snd (data_update demo_env (sample_store(''data_rooms2'' \<mapsto> Records [[(''id'', JNum 5)], [(''id'', JNum 6)]]))
         ''rooms2'' ''6'' [(''number'', JNum 9)]) = Reply 200 ok_true"
proof -
  let ?st = "sample_store(''data_rooms2'' \<mapsto> Records [[(''id'', JNum 5 :: nat json)], [(''id'', JNum 6)]])"
  let ?list = "[[(''id'', JNum 5)], [(''id'', JNum 6)]] :: nat obj list"
  have h: "''rooms2'' \<notin> set allowedTables" by (simp add: allowedTables_def)
  have e: "or_empty_list (redis_get ?st (data_key ''rooms2'')) = Records ?list"
    by (simp add: or_empty_list_def redis_get_def data_key_def)
  have m5: "id_matches demo_env ''5'' [(''id'', JNum 5)] = Inr True"
           "id_matches demo_env ''5'' [(''id'', JNum 6)] = Inr False"
    and m6: "id_matches demo_env ''6'' [(''id'', JNum 5)] = Inr False"
            "id_matches demo_env ''6'' [(''id'', JNum 6)] = Inr True"
    by (simp_all add: id_matches_def String_def get_prop_def demo_env_def)
  have conv: "\<forall>i\<in>set ?list. \<exists>b. id_matches demo_env ''5'' i = Inr b"
    by (auto simp: m5)
  have r6: "reaches (id_matches demo_env ''6'') ?list 1"
    by (simp add: reaches_def m6)
  have at6: "id_matches demo_env ''6'' (?list ! 1) = Inr True"
    by (simp add: m6)
  note t = whitelist_asymmetry[OF h, of ?st demo_env "[]" "''5''" "[]"]
  note t' = whitelist_asymmetry[OF h, of ?st demo_env "[]" "''6''" "[(''number'', JNum 9)]"]
  from t[THEN conjunct2, THEN conjunct2, THEN conjunct2, THEN conjunct2, rule_format, OF e,
         THEN conjunct1, THEN mp, OF conv]
  have d: "data_delete demo_env ?st ''rooms2'' ''5'' =
       (sample_store(''data_rooms2'' \<mapsto> Records [[(''id'', JNum 6)]]), Reply 200 ok_true)"
    by (simp add: data_key_def m5)
  from t'[THEN conjunct2, THEN conjunct2, THEN conjunct2, THEN conjunct2, rule_format, OF e,
         THEN conjunct2, THEN conjunct2, rule_format, OF r6 at6]
  have u: "snd (data_update demo_env ?st ''rooms2'' ''6'' [(''number'', JNum 9)]) = Reply 200 ok_true"
    by auto
  from h t[THEN conjunct1] d u show ?thesis by simp
qed

text \<open>
  Counterexample for C6. A \<^verbatim>\<open>PUT\<close> on room 6 of the sample store with the body
  \<^verbatim>\<open>{"id":{"toString":1}}\<close> answers 200 and stores that id. No record of the resulting
  list has an id that prints as 7, yet the update of id 7 does not answer 404: the
  conversion of the stored id throws, and nothing in the handler catches it.
\<close>

theorem update_unprintable_id_throws:
  "data_update demo_env sample_store ''rooms'' ''6'' [(''id'', JObj [(''toString'', JNum 1)])] =
     (odd_store, Reply 200 ok_true)
   \<and> data_update demo_env odd_store ''rooms'' ''7'' [(''number'', JNum 9)] =
     (odd_store, Uncaught TypeError)"
proof -
  let ?list = "[[(''number'', JNum 101), (''id'', JNum 5)],
              [(''number'', JNum 102), (''id'', JNum 6)],
              [(''number'', JNum 103), (''id'', JNum 5)]] :: nat obj list"
  let ?odd = "[[(''number'', JNum 101), (''id'', JNum 5)],
              [(''number'', JNum 102), (''id'', JObj [(''toString'', JNum 1)])],
              [(''number'', JNum 103), (''id'', JNum 5)]] :: nat obj list"
  have r6: "reaches (id_matches demo_env ''6'') ?list 1"
    by (simp add: reaches_def match6)
  have at6: "id_matches demo_env ''6'' (?list ! 1) = Inr True"
    by (simp add: match6)
  have merged: "spread (?list ! 1) [(''id'', JObj [(''toString'', JNum (1::nat))])] =
                  [(''number'', JNum 102), (''id'', JObj [(''toString'', JNum 1)])]"
    by (simp add: spread_def set_prop_def)
  have first: "data_update demo_env sample_store ''rooms'' ''6'' [(''id'', JObj [(''toString'', JNum 1)])] =
     (odd_store, Reply 200 ok_true)"
    unfolding data_update_found[OF sample_rooms r6 at6] merged odd_store_def by simp
  have r7: "reaches (id_matches demo_env ''7'') ?odd 1"
    by (simp add: reaches_def match7)
  have at7: "id_matches demo_env ''7'' (?odd ! 1) = Inl TypeError"
    using match7(4) by simp
  have second: "data_update demo_env odd_store ''rooms'' ''7'' [(''number'', JNum 9)] =
     (odd_store, Uncaught TypeError)"
    by (rule data_update_throws[OF odd_rooms r7 at7])
  from first second show ?thesis by simp
qed

text \<open>
  Claim C6, amended. On a key that holds a list, update answers 404, leaving the store
  alone, exactly when every record's id converts to a string and none of these strings
  is the path id. When the search arrives at a record whose id converts to the path id,
  update answers 200 and stores the list in which that record is replaced: every field
  of the body (an object, each key once) has the body's value there, every field the
  body lacks is as in the old record, and every other record of the list is unchanged.
  When the search arrives at a record whose id does not convert to a string (an object
  with an own \<^verbatim>\<open>toString\<close> property, or an array that holds one), the handler throws
  and stores nothing.
\<close>

theorem update_merge_frame:
  assumes "or_empty_list (redis_get st (data_key table)) = Records list"
  shows "((\<forall>i\<in>set list. id_matches env pid i = Inr False) \<longrightarrow>
            data_update env st table pid body = (st, Reply 404 (message msg_item_not_found)))
       \<and> (\<forall>idx. reaches (id_matches env pid) list idx \<longrightarrow>
            (id_matches env pid (list ! idx) = Inl TypeError \<longrightarrow>
               data_update env st table pid body = (st, Uncaught TypeError))
          \<and> (id_matches env pid (list ! idx) = Inr True \<longrightarrow>
               (\<exists>list'. data_update env st table pid body =
                           (redis_set st (data_key table) (Records list'), Reply 200 ok_true)
                  \<and> length list' = length list
                  \<and> (\<forall>j<length list. j \<noteq> idx \<longrightarrow> list' ! j = list ! j)
                  \<and> (\<forall>k v. distinct (map fst body) \<longrightarrow> get_prop body k = Some v \<longrightarrow>
                        get_prop (list' ! idx) k = Some v)
                  \<and> (\<forall>k. get_prop body k = None \<longrightarrow>
                        get_prop (list' ! idx) k = get_prop (list ! idx) k))))
       \<and> ((\<exists>pl. snd (data_update env st table pid body) = Reply 404 pl) \<longleftrightarrow>
            (\<forall>i\<in>set list. id_matches env pid i = Inr False))"
proof -
  have none: "data_update env st table pid body = (st, Reply 404 (message msg_item_not_found))"
    if "\<forall>i\<in>set list. id_matches env pid i = Inr False"
    using assms that by (rule data_update_none)
  have throws: "data_update env st table pid body = (st, Uncaught TypeError)"
    if "reaches (id_matches env pid) list idx" "id_matches env pid (list ! idx) = Inl TypeError"
    for idx
    using assms that by (rule data_update_throws)
  have merge: "\<exists>list'. data_update env st table pid body =
                           (redis_set st (data_key table) (Records list'), Reply 200 ok_true)
                  \<and> length list' = length list
                  \<and> (\<forall>j<length list. j \<noteq> idx \<longrightarrow> list' ! j = list ! j)
                  \<and> (\<forall>k v. distinct (map fst body) \<longrightarrow> get_prop body k = Some v \<longrightarrow>
                        get_prop (list' ! idx) k = Some v)
                  \<and> (\<forall>k. get_prop body k = None \<longrightarrow>
                        get_prop (list' ! idx) k = get_prop (list ! idx) k)"
    if r: "reaches (id_matches env pid) list idx" and m: "id_matches env pid (list ! idx) = Inr True"
    for idx
  proof -
    let ?list' = "list[idx := spread (list ! idx) body]"
    from r have lt: "idx < length list" by (simp add: reaches_def)
    have run: "data_update env st table pid body =
                 (redis_set st (data_key table) (Records ?list'), Reply 200 ok_true)"
      using assms r m by (rule data_update_found)
    have others: "\<forall>j<length list. j \<noteq> idx \<longrightarrow> ?list' ! j = list ! j"
      by simp
    have at: "?list' ! idx = spread (list ! idx) body"
      using lt by simp
    have wins: "\<forall>k v. distinct (map fst body) \<longrightarrow> get_prop body k = Some v \<longrightarrow>
                   get_prop (?list' ! idx) k = Some v"
      unfolding at by (simp add: get_prop_spread_present)
    have kept: "\<forall>k. get_prop body k = None \<longrightarrow> get_prop (?list' ! idx) k = get_prop (list ! idx) k"
      unfolding at by (simp add: get_prop_spread_absent)
    show ?thesis
      apply (rule exI[of _ ?list'])
      apply (intro conjI)
          apply (rule run)
         apply simp
        apply (rule others)
       apply (rule wins)
      apply (rule kept)
      done
  qed
  have iff: "(\<exists>pl. snd (data_update env st table pid body) = Reply 404 pl) \<longleftrightarrow>
            (\<forall>i\<in>set list. id_matches env pid i = Inr False)"
  proof
    assume "\<exists>pl. snd (data_update env st table pid body) = Reply 404 pl"
    then have "js_findIndex (id_matches env pid) list = Inr None"
      using assms by (auto simp: data_update_def split: sum.splits option.splits)
    then show "\<forall>i\<in>set list. id_matches env pid i = Inr False"
      by (simp add: js_findIndex_none)
  next
    assume "\<forall>i\<in>set list. id_matches env pid i = Inr False"
    from none[OF this] show "\<exists>pl. snd (data_update env st table pid body) = Reply 404 pl"
      by simp
  qed
  show ?thesis
    apply (intro conjI allI impI)
    subgoal by (rule none)
    subgoal for idx by (rule throws)
    subgoal for idx by (rule merge)
    subgoal by (rule iff)
    done
qed

text \<open>Witness for C6: no room has id 7; on the store of the counterexample the same
  request throws; room 6 takes the new number and the new field \<^verbatim>\<open>7\<close>, which the
  stored record lists first.\<close>

theorem update_merge_frame_witness:
  "data_update demo_env sample_store ''rooms'' ''7'' [(''number'', JNum 9)] =
     (sample_store, Reply 404 (message msg_item_not_found))
   \<and> data_update demo_env odd_store ''rooms'' ''7'' [(''number'', JNum 9)] =
     (odd_store, Uncaught TypeError)
   \<and> (\<exists>list'. data_update demo_env sample_store ''rooms'' ''6'' [(''number'', JNum 9), (''7'', JBool True)] =
            (redis_set sample_store (data_key ''rooms'') (Records list'), Reply 200 ok_true)
        \<and> length list' = 3
        \<and> list' ! 0 = [(''number'', JNum 101), (''id'', JNum 5)]
        \<and> get_prop (list' ! 1) ''number'' = Some (JNum 9)
        \<and> get_prop (list' ! 1) ''7'' = Some (JBool True)
        \<and> get_prop (list' ! 1) ''id'' = Some (JNum 6))
   \<and> data_update demo_env sample_store ''rooms'' ''6'' [(''number'', JNum 9), (''7'', JBool True)] =
       (redis_set sample_store (data_key ''rooms'')
          (Records [[(''number'', JNum 101), (''id'', JNum 5)],
                    [(''7'', JBool True), (''number'', JNum 9), (''id'', JNum 6)],
                    [(''number'', JNum 103), (''id'', JNum 5)]]),
        Reply 200 ok_true)"
proof -
  let ?list = "[[(''number'', JNum 101), (''id'', JNum 5)],
              [(''number'', JNum 102), (''id'', JNum 6)],
              [(''number'', JNum 103), (''id'', JNum 5)]] :: nat obj list"
  let ?odd = "[[(''number'', JNum 101), (''id'', JNum 5)],
              [(''number'', JNum 102), (''id'', JObj [(''toString'', JNum 1)])],
              [(''number'', JNum 103), (''id'', JNum 5)]] :: nat obj list"
  let ?body = "[(''number'', JNum 9), (''7'', JBool True)] :: nat obj"
  have none: "\<forall>i\<in>set ?list. id_matches demo_env ''7'' i = Inr False"
    by (simp add: match7)
  from update_merge_frame[OF sample_rooms, of demo_env "''7''" "[(''number'', JNum 9)]",
         THEN conjunct1, THEN mp, OF none]
  have r1: "data_update demo_env sample_store ''rooms'' ''7'' [(''number'', JNum 9)] =
     (sample_store, Reply 404 (message msg_item_not_found))" .
  have r7: "reaches (id_matches demo_env ''7'') ?odd 1"
    by (simp add: reaches_def match7)
  have at7: "id_matches demo_env ''7'' (?odd ! 1) = Inl TypeError"
    using match7(4) by simp
  from update_merge_frame[OF odd_rooms, of demo_env "''7''" "[(''number'', JNum 9)]",
         THEN conjunct2, THEN conjunct1, rule_format, OF r7, THEN conjunct1, THEN mp, OF at7]
  have r2: "data_update demo_env odd_store ''rooms'' ''7'' [(''number'', JNum 9)] =
     (odd_store, Uncaught TypeError)" .
  have r6: "reaches (id_matches demo_env ''6'') ?list 1"
    by (simp add: reaches_def match6)
  have at6: "id_matches demo_env ''6'' (?list ! 1) = Inr True"
    by (simp add: match6)
  have d: "distinct (map fst ?body)" by simp
  have g: "get_prop ?body ''number'' = Some (JNum 9)" "get_prop ?body ''7'' = Some (JBool True)"
          "get_prop ?body ''id'' = None"
    by (simp_all add: get_prop_def)
  from update_merge_frame[OF sample_rooms, of demo_env "''6''" ?body,
         THEN conjunct2, THEN conjunct1, rule_format, OF r6, THEN conjunct2, THEN mp, OF at6]
  obtain list' where p:
     "data_update demo_env sample_store ''rooms'' ''6'' ?body =
            (redis_set sample_store (data_key ''rooms'') (Records list'), Reply 200 ok_true)"
     "length list' = length ?list"
     "\<forall>j<length ?list. j \<noteq> 1 \<longrightarrow> list' ! j = ?list ! j"
     "\<forall>k v. distinct (map fst ?body) \<longrightarrow> get_prop ?body k = Some v \<longrightarrow> get_prop (list' ! 1) k = Some v"
     "\<forall>k. get_prop ?body k = None \<longrightarrow> get_prop (list' ! 1) k = get_prop (?list ! 1) k"
    by blast
  from p(2) have len: "length list' = 3" by simp
  from p(3) have z: "list' ! 0 = [(''number'', JNum 101), (''id'', JNum 5)]" by simp
  from p(4) d g(1) have n: "get_prop (list' ! 1) ''number'' = Some (JNum 9)" by blast
  from p(4) d g(2) have s: "get_prop (list' ! 1) ''7'' = Some (JBool True)" by blast
  from p(5) g(3) have i: "get_prop (list' ! 1) ''id'' = Some (JNum 6)" by (simp add: get_prop_def)
  from p(1) len z n s i have r3: "\<exists>list'. data_update demo_env sample_store ''rooms'' ''6'' ?body =
            (redis_set sample_store (data_key ''rooms'') (Records list'), Reply 200 ok_true)
        \<and> length list' = 3
        \<and> list' ! 0 = [(''number'', JNum 101), (''id'', JNum 5)]
        \<and> get_prop (list' ! 1) ''number'' = Some (JNum 9)
        \<and> get_prop (list' ! 1) ''7'' = Some (JBool True)
        \<and> get_prop (list' ! 1) ''id'' = Some (JNum 6)"
    by blast
  have merged: "spread (?list ! 1) ?body = [(''7'', JBool True), (''number'', JNum 9), (''id'', JNum 6)]"
    by (simp add: spread_def set_prop_def name_keys)
  have r4: "data_update demo_env sample_store ''rooms'' ''6'' ?body =
       (redis_set sample_store (data_key ''rooms'')
          (Records [[(''number'', JNum 101), (''id'', JNum 5)],
                    [(''7'', JBool True), (''number'', JNum 9), (''id'', JNum 6)],
                    [(''number'', JNum 103), (''id'', JNum 5)]]),
        Reply 200 ok_true)"
    unfolding data_update_found[OF sample_rooms r6 at6] merged by simp
  from r1 r2 r3 r4 show ?thesis by blast
qed

text \<open>
  Counterexample for C7. On the store that holds a room with the id
  \<^verbatim>\<open>{"toString":1}\<close>, the delete of id 7, which no record has, does not answer
  \<open>{ok: true}\<close>: the filter throws on that room and the store is left as it was.
\<close>

theorem delete_unprintable_id_throws:
  "data_delete demo_env odd_store ''rooms'' ''7'' = (odd_store, Uncaught TypeError)"
  by (simp add: data_delete_def odd_rooms id_differs_def String_def get_prop_def demo_env_def)

text \<open>
  Claim C7, amended. On a key that holds a list, delete answers 200 exactly when every
  record's id converts to a string. It then stores the list filtered of every record
  whose id converts to the path id: the others stay, in their order, no remaining
  record has that id, and when none had it the list is stored unchanged with the same
  answer \<open>{ok: true}\<close>; on a whitelisted table the listing that follows returns that
  filtered list. When some record's id does not convert to a string, the handler throws
  and stores nothing.
\<close>

theorem delete_removes_all:
  assumes "or_empty_list (redis_get st (data_key table)) = Records list"
  shows "((\<forall>i\<in>set list. \<exists>b. id_matches env pid i = Inr b) \<longrightarrow>
            data_delete env st table pid =
              (redis_set st (data_key table)
                 (Records (filter (\<lambda>i. id_matches env pid i = Inr False) list)),
               Reply 200 ok_true)
          \<and> (\<forall>i\<in>set (filter (\<lambda>i. id_matches env pid i = Inr False) list).
                id_matches env pid i \<noteq> Inr True)
          \<and> ((\<forall>i\<in>set list. id_matches env pid i = Inr False) \<longrightarrow>
                filter (\<lambda>i. id_matches env pid i = Inr False) list = list)
          \<and> (table \<in> set allowedTables \<longrightarrow>
                snd (data_list (fst (data_delete env st table pid)) table) =
                  Reply 200 (Json (JArr (map JObj
                    (filter (\<lambda>i. id_matches env pid i = Inr False) list))))))
       \<and> ((\<exists>i\<in>set list. id_matches env pid i = Inl TypeError) \<longrightarrow>
            data_delete env st table pid = (st, Uncaught TypeError))
       \<and> ((\<exists>pl. snd (data_delete env st table pid) = Reply 200 pl) \<longleftrightarrow>
            (\<forall>i\<in>set list. \<exists>b. id_matches env pid i = Inr b))"
proof -
  let ?kept = "filter (\<lambda>i. id_matches env pid i = Inr False) list"
  have total: "data_delete env st table pid =
                 (redis_set st (data_key table) (Records ?kept), Reply 200 ok_true)"
    if "\<forall>i\<in>set list. \<exists>b. id_matches env pid i = Inr b"
    using assms that by (rule data_delete_total)
  have clean: "\<forall>i\<in>set ?kept. id_matches env pid i \<noteq> Inr True"
    by simp
  have same: "?kept = list" if "\<forall>i\<in>set list. id_matches env pid i = Inr False"
    using that by simp
  have listing: "snd (data_list (fst (data_delete env st table pid)) table) =
                   Reply 200 (Json (JArr (map JObj ?kept)))"
    if "\<forall>i\<in>set list. \<exists>b. id_matches env pid i = Inr b" "table \<in> set allowedTables"
    unfolding total[OF that(1)] using that(2)
    by (simp add: data_list_def redis_set_def redis_get_def or_empty_list_def cell_json_def)
  have throws: "data_delete env st table pid = (st, Uncaught TypeError)"
    if "\<exists>i\<in>set list. id_matches env pid i = Inl TypeError"
  proof -
    from that have "\<exists>i\<in>set list. \<exists>e. id_matches env pid i = Inl e" by blast
    from data_delete_throws[OF assms this] obtain e
      where e: "data_delete env st table pid = (st, Uncaught e)" ..
    then have "js_filter (id_differs env pid) list = Inl e"
      using assms by (auto simp: data_delete_def split: sum.splits)
    from js_filter_error[OF this] obtain i where "id_differs env pid i = Inl e" by blast
    then have "id_matches env pid i = Inl e" by (simp add: id_differs_throws)
    then have "e = TypeError" by (rule id_matches_error)
    with e show ?thesis by simp
  qed
  have iff: "(\<exists>pl. snd (data_delete env st table pid) = Reply 200 pl) \<longleftrightarrow>
            (\<forall>i\<in>set list. \<exists>b. id_matches env pid i = Inr b)"
  proof
    assume ok: "\<exists>pl. snd (data_delete env st table pid) = Reply 200 pl"
    show "\<forall>i\<in>set list. \<exists>b. id_matches env pid i = Inr b"
    proof (rule ccontr)
      assume "\<not> (\<forall>i\<in>set list. \<exists>b. id_matches env pid i = Inr b)"
      then obtain i where i: "i \<in> set list" "\<forall>b. id_matches env pid i \<noteq> Inr b" by blast
      then obtain e where "id_matches env pid i = Inl e"
        by (cases "id_matches env pid i") auto
      with i(1) have "\<exists>i\<in>set list. \<exists>e. id_matches env pid i = Inl e" by blast
      from data_delete_throws[OF assms this] ok show False by auto
    qed
  next
    assume "\<forall>i\<in>set list. \<exists>b. id_matches env pid i = Inr b"
    from total[OF this] show "\<exists>pl. snd (data_delete env st table pid) = Reply 200 pl" by simp
  qed
  show ?thesis
    apply (intro conjI allI impI)
    subgoal by (rule total)
    subgoal by (rule clean)
    subgoal by (rule same)
    subgoal by (rule listing)
    subgoal by (rule throws)
    subgoal by (rule iff)
    done
qed

text \<open>Witness for C7: both rooms with id 5 go and room 6 stays; a delete of id 7
  removes nothing and answers alike; on the store of the counterexample it throws.\<close>

theorem delete_removes_all_witness:
  "data_delete demo_env sample_store ''rooms'' ''5'' =
     (redis_set sample_store (data_key ''rooms'') (Records [[(''number'', JNum 102), (''id'', JNum 6)]]),
      Reply 200 ok_true)
   \<and> ''rooms'' \<in> set allowedTables
   \<and> snd (data_list (fst (data_delete demo_env sample_store ''rooms'' ''5'')) ''rooms'') =
       Reply 200 (Json (JArr [JObj [(''number'', JNum 102), (''id'', JNum 6)]]))
   \<and> data_delete demo_env sample_store ''rooms'' ''7'' =
     (redis_set sample_store (data_key ''rooms'')
        (Records [[(''number'', JNum 101), (''id'', JNum 5)],
                  [(''number'', JNum 102), (''id'', JNum 6)],
                  [(''number'', JNum 103), (''id'', JNum 5)]]),
      Reply 200 ok_true)
   \<and> data_delete demo_env odd_store ''rooms'' ''7'' = (odd_store, Uncaught TypeError)"
proof -
  let ?list = "[[(''number'', JNum 101), (''id'', JNum 5)],
              [(''number'', JNum 102), (''id'', JNum 6)],
              [(''number'', JNum 103), (''id'', JNum 5)]] :: nat obj list"
  let ?odd = "[[(''number'', JNum 101), (''id'', JNum 5)],
              [(''number'', JNum 102), (''id'', JObj [(''toString'', JNum 1)])],
              [(''number'', JNum 103), (''id'', JNum 5)]] :: nat obj list"
  have a: "''rooms'' \<in> set allowedTables" by (simp add: allowedTables_def)
  have c5: "\<forall>i\<in>set ?list. \<exists>b. id_matches demo_env ''5'' i = Inr b" by (auto simp: match5)
  have c7: "\<forall>i\<in>set ?list. \<exists>b. id_matches demo_env ''7'' i = Inr b" by (auto simp: match7)
  have bad: "\<exists>i\<in>set ?odd. id_matches demo_env ''7'' i = Inl TypeError"
    using match7(4) by simp
  note t5 = delete_removes_all[OF sample_rooms, of demo_env "''5''", THEN conjunct1, THEN mp, OF c5]
  note t7 = delete_removes_all[OF sample_rooms, of demo_env "''7''", THEN conjunct1, THEN mp, OF c7]
  from t5[THEN conjunct1]
  have r1: "data_delete demo_env sample_store ''rooms'' ''5'' =
     (redis_set sample_store (data_key ''rooms'') (Records [[(''number'', JNum 102), (''id'', JNum 6)]]),
      Reply 200 ok_true)"
    by (simp add: match5)
  from t5[THEN conjunct2, THEN conjunct2, THEN conjunct2, THEN mp, OF a]
  have r2: "snd (data_list (fst (data_delete demo_env sample_store ''rooms'' ''5'')) ''rooms'') =
       Reply 200 (Json (JArr [JObj [(''number'', JNum 102), (''id'', JNum 6)]]))"
    by (simp add: match5)
  from t7[THEN conjunct1]
  have r3: "data_delete demo_env sample_store ''rooms'' ''7'' =
     (redis_set sample_store (data_key ''rooms'') (Records ?list), Reply 200 ok_true)"
    by (simp add: match7)
  from delete_removes_all[OF odd_rooms, of demo_env "''7''", THEN conjunct2, THEN conjunct1,
         THEN mp, OF bad]
  have r4: "data_delete demo_env odd_store ''rooms'' ''7'' = (odd_store, Uncaught TypeError)" .
  from r1 a r2 r3 r4 show ?thesis by simp
qed



text \<open>
  Claim C9. When a registration passes every check, the pending key holds a mapping and
  the mail transport fails, the answer is 500 with the message of the error thrown (that
  of the transport when the text of the mail could be built), and the store returned
  has the new draft under the minted token, the other drafts and the users being as
  before: the draft was saved before the mail was sent.
\<close>

theorem register_mail_failure_keeps_draft:
  assumes "truthy env (get_prop body ''name'')"
      and "truthy env (get_prop body ''email'')"
      and "get_prop body ''password'' = Some (JStr pw)" and "pw \<noteq> []"
      and "readUsers st = Records users"
      and "js_find (same_email env (get_prop body ''email'')) users = Inr None"
      and "readPending st = Mapping pending"
      and "sendMail_fails env"
  shows "snd (register env st body) =
           Reply 500 (Json (JObj [(''message'', JStr msg_register_error),
              (''error'', JStr (error_message env
                 (case approval_html env (the (get_prop body ''name'')) (the (get_prop body ''email''))
                         (approveUrl env (mint_token env (get_prop body ''email''))) of
                    Inl e \<Rightarrow> e
                  | Inr html \<Rightarrow> MailError)))]))
       \<and> (\<exists>pending'. fst (register env st body) ''pending'' = Some (Mapping pending')
            \<and> get_prop pending' (mint_token env (get_prop body ''email'')) =
                Some (userDraft env (the (get_prop body ''name'')) (the (get_prop body ''email'')) pw)
            \<and> (\<forall>t. t \<noteq> mint_token env (get_prop body ''email'') \<longrightarrow>
                  get_prop pending' t = get_prop pending t))
       \<and> fst (register env st body) ''users'' = st ''users''"
proof -
  let ?token = "mint_token env (get_prop body ''email'')"
  let ?draft = "userDraft env (the (get_prop body ''name'')) (the (get_prop body ''email'')) pw"
  have pass: "truthy env (get_prop body ''password'')" using assms(3,4) by simp
  have none: "js_findIndex (same_email env (get_prop body ''email'')) users = Inr None"
    using assms(6) by (simp add: js_find_def split: sum.splits option.splits)
  let ?err = "case approval_html env (the (get_prop body ''name'')) (the (get_prop body ''email''))
                      (approveUrl env ?token) of
                 Inl e \<Rightarrow> e
               | Inr html \<Rightarrow> MailError"
  have tried: "register_try env st body =
               (st(''pending'' \<mapsto> Mapping (set_prop ?token ?draft pending)), Inl ?err)"
    using register_fresh[OF assms(1,2) pass assms(5) none] assms(3,7,8)
    by (simp add: savePending_def redis_set_def split: sum.splits)
  have run: "register env st body =
               (st(''pending'' \<mapsto> Mapping (set_prop ?token ?draft pending)),
                Reply 500 (Json (JObj [(''message'', JStr msg_register_error),
                                       (''error'', JStr (error_message env ?err))])))"
    by (simp add: register_def tried)
  have kept: "get_prop (set_prop ?token ?draft pending) ?token = Some ?draft"
    by (simp add: get_prop_set_prop)
  have others: "\<forall>t. t \<noteq> ?token \<longrightarrow> get_prop (set_prop ?token ?draft pending) t = get_prop pending t"
    by (simp add: get_prop_set_prop)
  show ?thesis
    unfolding run using kept others by simp
qed

text \<open>Witness for C9: Eve's registration with a failing transport.\<close>

theorem register_mail_failure_keeps_draft_witness:
  "sendMail_fails (demo_env\<lparr>sendMail_fails := True\<rparr>)
   \<and> snd (register (demo_env\<lparr>sendMail_fails := True\<rparr>) sample_store
          [(''name'', JStr ''Eve''), (''email'', JStr ''eve@x.io''), (''password'', JStr ''pw'')]) =
       Reply 500 (Json (JObj [(''message'', JStr msg_register_error), (''error'', JStr ''failed'')]))
   \<and> (\<exists>pending'. fst (register (demo_env\<lparr>sendMail_fails := True\<rparr>) sample_store
          [(''name'', JStr ''Eve''), (''email'', JStr ''eve@x.io''), (''password'', JStr ''pw'')]) ''pending''
            = Some (Mapping pending')
        \<and> get_prop pending' ''eyJhbGciOiJIUzI1NiIsInR5cCI6IkpXVCJ9.e30.c2ln'' =
            Some [(''name'', JStr ''Eve''), (''email'', JStr ''eve@x.io''), (''password'', JStr ''$2a$10$pw''),
                  (''createdAt'', JStr ''2024-10-27T03:33:20.000Z''), (''approved'', JBool False)])"
proof -
  let ?env = "demo_env\<lparr>sendMail_fails := True\<rparr>"
  let ?b = "[(''name'', JStr ''Eve''), (''email'', JStr ''eve@x.io''), (''password'', JStr ''pw'')] :: nat obj"
  have n: "truthy ?env (get_prop ?b ''name'')" and e: "truthy ?env (get_prop ?b ''email'')"
    and p: "get_prop ?b ''password'' = Some (JStr ''pw'')" and ne: "''pw'' \<noteq> []"
    by (simp_all add: get_prop_def)
  have low: "toLowerCase ?env = toLowerCase demo_env" by simp
  have f: "js_find (same_email ?env (get_prop ?b ''email'')) [ann, bob] = Inr None"
    by (simp add: js_find_def same_email_def get_prop_def ann_def bob_def low
        lower_Ann lower_bob lower_eve)
  have m: "sendMail_fails ?env" by simp
  note t = register_mail_failure_keeps_draft[OF n e p ne sample_users f sample_pending m]
  have tok: "mint_token ?env (get_prop ?b ''email'') = ''eyJhbGciOiJIUzI1NiIsInR5cCI6IkpXVCJ9.e30.c2ln''"
    by (simp add: mint_token_def jwt_header_def demo_env_def)
  have dr: "userDraft ?env (the (get_prop ?b ''name'')) (the (get_prop ?b ''email'')) ''pw'' =
     [(''name'', JStr ''Eve''), (''email'', JStr ''eve@x.io''), (''password'', JStr ''$2a$10$pw''),
             (''createdAt'', JStr ''2024-10-27T03:33:20.000Z''), (''approved'', JBool False)]"
    by (simp add: userDraft_def demo_env_def get_prop_def)
  have msg: "error_message ?env err = ''failed''" for err by (simp add: demo_env_def)
  from t[THEN conjunct1] have r1: "snd (register ?env sample_store ?b) =
       Reply 500 (Json (JObj [(''message'', JStr msg_register_error), (''error'', JStr ''failed'')]))"
    unfolding msg .
  from t[THEN conjunct2, THEN conjunct1]
  have r2: "\<exists>pending'. fst (register ?env sample_store ?b) ''pending'' = Some (Mapping pending')
        \<and> get_prop pending' ''eyJhbGciOiJIUzI1NiIsInR5cCI6IkpXVCJ9.e30.c2ln'' =
            Some [(''name'', JStr ''Eve''), (''email'', JStr ''eve@x.io''), (''password'', JStr ''$2a$10$pw''),
                  (''createdAt'', JStr ''2024-10-27T03:33:20.000Z''), (''approved'', JBool False)]"
    unfolding tok dr by blast
  from m r1 r2 show ?thesis by blast
qed

text \<open>
  Claim C10. The key \<^verbatim>\<open>data_<table>\<close> is neither \<^verbatim>\<open>users\<close> nor \<^verbatim>\<open>pending\<close>, for any
  table name. A request to the data interface leaves every other key as it was, and
  what it answers and stores does not depend on what any other key holds: replacing the
  content of such a key before the request changes neither the answer nor any other key
  of the resulting store.
\<close>

theorem data_routes_key_isolation:
  assumes "k \<noteq> data_key (request_table r)"
  shows "data_key (request_table r) \<noteq> ''users'' \<and> data_key (request_table r) \<noteq> ''pending''
       \<and> fst (data_route env st r) k = st k
       \<and> data_route env (st(k := c)) r = ((fst (data_route env st r))(k := c), snd (data_route env st r))"
proof -
  let ?t = "request_table r"
  have keys: "data_key ?t \<noteq> ''users''" "data_key ?t \<noteq> ''pending''"
    by (simp_all add: data_key_def)
  have same: "redis_get (st(k := c)) (data_key ?t) = redis_get st (data_key ?t)"
    using assms by (simp add: redis_get_def)
  have swap: "redis_set (st(k := c)) (data_key ?t) v = (redis_set st (data_key ?t) v)(k := c)" for v
    using assms by (auto simp: redis_set_def fun_eq_iff)
  have other: "redis_set st (data_key ?t) v k = st k" for v
    using assms by (simp add: redis_set_def)
  show ?thesis
  proof (cases r)
    case (ListReq table)
    with keys same show ?thesis by (simp add: data_list_def)
  next
    case (CreateReq table item)
    with keys same swap other show ?thesis
      by (simp add: data_create_def split: cell.splits)
  next
    case (UpdateReq table pid body)
    with keys same swap other show ?thesis
      by (simp add: data_update_def split: cell.splits sum.splits option.splits)
  next
    case (DeleteReq table pid)
    with keys same swap other show ?thesis
      by (simp add: data_delete_def split: cell.splits sum.splits)
  qed
qed

text \<open>Witness for C10: a delete on the table named \<^verbatim>\<open>users\<close> does not reach the users.\<close>

theorem data_routes_key_isolation_witness:
  "''users'' \<noteq> data_key (request_table (DeleteReq ''users'' ''5'' :: nat data_request))
   \<and> fst (data_route demo_env sample_store (DeleteReq ''users'' ''5'')) ''users'' =
       Some (Records [ann, bob])
   \<and> snd (data_route demo_env (sample_store(''users'' := None)) (DeleteReq ''users'' ''5'')) =
       snd (data_route demo_env sample_store (DeleteReq ''users'' ''5''))"
proof -
  have h: "''users'' \<noteq> data_key (request_table (DeleteReq ''users'' ''5'' :: nat data_request))"
    by (simp add: data_key_def)
  note t = data_routes_key_isolation[OF h, of demo_env sample_store None]
  have u: "sample_store ''users'' = Some (Records [ann, bob])"
    by (simp add: sample_store_def)
  from t[THEN conjunct2, THEN conjunct2, THEN conjunct1] u
  have a: "fst (data_route demo_env sample_store (DeleteReq ''users'' ''5'')) ''users'' =
       Some (Records [ann, bob])" by simp
  from t[THEN conjunct2, THEN conjunct2, THEN conjunct2]
  have b: "snd (data_route demo_env (sample_store(''users'' := None)) (DeleteReq ''users'' ''5'')) =
       snd (data_route demo_env sample_store (DeleteReq ''users'' ''5''))" by simp
  from h a b show ?thesis by simp
qed

end
